theory Spec2Isabelle
  imports Complex_Main
begin

section \<open>Machine types and faults\<close>

text \<open>
  The unit under verification is \<^verbatim>\<open>platforms/brook/src/BrookBondParameters.cpp\<close>.
  A C++ \<^verbatim>\<open>int\<close> is modelled as an \<open>int\<close> of the range \<open>c_int_range\<close>; the code does
  no arithmetic on its integers apart from loop counters that stay below a bound, so the
  only place where the width matters is the conversion to \<^verbatim>\<open>size_t\<close> in the constructor,
  which is written out modulo \<open>2 ^ 64\<close>. A \<^verbatim>\<open>double\<close> is only stored and printed, never
  computed with: it is a type parameter \<open>'d\<close>. A \<^verbatim>\<open>FILE*\<close> is an optional handle.
\<close>

type_synonym c_int = int

type_synonym FILE_ptr = "nat option"

definition c_int_range :: "int \<Rightarrow> bool" where
  "c_int_range x = (- (2 ^ 31) \<le> x \<and> x < 2 ^ 31)"

text \<open>
  What a call can end with instead of its value: the exception \<^verbatim>\<open>setBond\<close> throws (an
  \<^verbatim>\<open>OpenMMException\<close> with its message; the specification calls it IndexOutOfRange), the
  exception \<^verbatim>\<open>std::vector::resize\<close> throws, and the two kinds of undefined behaviour the
  code can run into (an element access outside a vector or a caller's array, a write past
  the end of a fixed character array).
\<close>

datatype error =
    OpenMMException string
  | LengthError
  | OutOfBounds
  | BufferOverflow

section \<open>The store\<close>

record 'd BrookBondParameters =
  bondName :: string
  numberOfParticlesInBond :: c_int
  numberOfParametersInBond :: c_int
  numberOfBonds :: c_int
  log_ptr :: FILE_ptr
  bondParameters :: "'d list list"
  particleIndices :: "c_int list list"

text \<open>
  \<^verbatim>\<open>std::vector::resize(size_type)\<close> called with an \<^verbatim>\<open>int\<close>: the argument is converted to
  the unsigned \<^verbatim>\<open>size_t\<close> (64 bits), a size beyond \<^verbatim>\<open>max_size()\<close> throws
  \<^verbatim>\<open>std::length_error\<close>, a larger size appends default elements, a smaller one truncates.
  \<open>vector_max_size\<close> is \<^verbatim>\<open>PTRDIFF_MAX / sizeof(std::vector<T>)\<close> of a 64-bit platform;
  running out of memory below that bound is not modelled.
\<close>

definition size_t_of_int :: "c_int \<Rightarrow> nat" where
  "size_t_of_int n = nat (n mod 2 ^ 64)"

definition vector_max_size :: nat where
  "vector_max_size = (2 ^ 63 - 1) div 24"

definition vector_resize :: "c_int \<Rightarrow> 'a \<Rightarrow> 'a list \<Rightarrow> error + 'a list" where
  "vector_resize n dflt v =
     (let sz = size_t_of_int n in
      if vector_max_size < sz then Inl LengthError
      else if sz \<le> length v then Inr (take sz v)
      else Inr (v @ replicate (sz - length v) dflt))"

text \<open>The constructor (lines 45-62): the member initialisers, then the two \<^verbatim>\<open>resize\<close> calls.\<close>

definition BrookBondParameters_ctor ::
  "string \<Rightarrow> c_int \<Rightarrow> c_int \<Rightarrow> c_int \<Rightarrow> FILE_ptr \<Rightarrow> error + 'd BrookBondParameters" where
  "BrookBondParameters_ctor name nParticles nParameters nBonds lg =
     (let this = \<lparr> bondName = name,
                     numberOfParticlesInBond = nParticles,
                     numberOfParametersInBond = nParameters,
                     numberOfBonds = nBonds,
                     log_ptr = lg,
                     bondParameters = [],
                     particleIndices = [] \<rparr>
      in case vector_resize nBonds [] (bondParameters this) of
           Inl e \<Rightarrow> Inl e
         | Inr bp \<Rightarrow>
             (case vector_resize nBonds [] (particleIndices this) of
                Inl e \<Rightarrow> Inl e
              | Inr pix \<Rightarrow> Inr (this\<lparr> bondParameters := bp, particleIndices := pix \<rparr>)))"

subsection \<open>Accessors (lines 86-168)\<close>

definition getParticleIndices :: "'d BrookBondParameters \<Rightarrow> c_int list list" where
  "getParticleIndices s = particleIndices s"

definition getBondParameters :: "'d BrookBondParameters \<Rightarrow> 'd list list" where
  "getBondParameters s = bondParameters s"

definition getLog :: "'d BrookBondParameters \<Rightarrow> FILE_ptr" where
  "getLog s = log_ptr s"

definition getBondName :: "'d BrookBondParameters \<Rightarrow> string" where
  "getBondName s = bondName s"

definition getNumberOfBonds :: "'d BrookBondParameters \<Rightarrow> c_int" where
  "getNumberOfBonds s = numberOfBonds s"

definition getNumberOfParticlesInBond :: "'d BrookBondParameters \<Rightarrow> c_int" where
  "getNumberOfParticlesInBond s = numberOfParticlesInBond s"

definition getNumberOfParametersInBond :: "'d BrookBondParameters \<Rightarrow> c_int" where
  "getNumberOfParametersInBond s = numberOfParametersInBond s"

text \<open>
  Modelled from the spec: the header \<^verbatim>\<open>BrookBondParameters.h\<close> that declares the constant
  \<^verbatim>\<open>DefaultReturnValue\<close> is absent; the spec calls the value \<^verbatim>\<open>setBond\<close> and \<^verbatim>\<open>setLog\<close>
  return the success indicator. No theorem below depends on the number chosen for it.
\<close>

definition DefaultReturnValue :: c_int where
  "DefaultReturnValue = 0"

definition setLog :: "FILE_ptr \<Rightarrow> 'd BrookBondParameters \<Rightarrow> c_int \<times> 'd BrookBondParameters" where
  "setLog lg s = (DefaultReturnValue, s\<lparr> log_ptr := lg \<rparr>)"

section \<open>Decimal output\<close>

text \<open>
  \<^verbatim>\<open>operator<<(int)\<close> on a stream and the \<^verbatim>\<open>%d\<close> conversion both print an integer in
  decimal, with a minus sign when it is negative.
\<close>

definition digit_char :: "nat \<Rightarrow> char" where
  "digit_char d = ''0123456789'' ! (d mod 10)"

function dec_nat :: "nat \<Rightarrow> string" where
  "dec_nat n = (if n < 10 then [digit_char n] else dec_nat (n div 10) @ [digit_char (n mod 10)])"
  by pat_completeness auto
termination
  by (relation "measure id") auto

declare dec_nat.simps [simp del]

definition dec_int :: "int \<Rightarrow> string" where
  "dec_int i = (if i < 0 then CHR ''-'' # dec_nat (nat (- i)) else dec_nat (nat i))"

section \<open>setBond (lines 183-222)\<close>

text \<open>
  The two arguments of type \<^verbatim>\<open>int*\<close> and \<^verbatim>\<open>double*\<close> are the caller's arrays: lists, read by
  position; a read past the end of the array is the fault \<open>OutOfBounds\<close>. The element
  access \<^verbatim>\<open>v[i]\<close> of a vector is unchecked in C++: outside the vector it is the same fault.
  \<^verbatim>\<open>push_back\<close> appends one element to the row; running out of memory is not modelled.
\<close>

definition array_read :: "'a list \<Rightarrow> c_int \<Rightarrow> error + 'a" where
  "array_read p ii =
     (if 0 \<le> ii \<and> nat ii < length p then Inr (p ! nat ii) else Inl OutOfBounds)"

definition push_back_at :: "c_int \<Rightarrow> 'a \<Rightarrow> 'a list list \<Rightarrow> error + 'a list list" where
  "push_back_at bondIndex v rows =
     (if 0 \<le> bondIndex \<and> nat bondIndex < length rows
      then Inr (rows[nat bondIndex := rows ! nat bondIndex @ [v]])
      else Inl OutOfBounds)"

text \<open>
  The first loop (lines 209-211): \<^verbatim>\<open>_particleIndices[bondIndex].push_back( particleIndices[ii] )\<close>
  for \<open>ii\<close> from its start value up to \<open>n\<close>. A fault leaves the store as it is at that point.
\<close>

function load_particles ::
  "c_int \<Rightarrow> c_int \<Rightarrow> c_int \<Rightarrow> c_int list \<Rightarrow> 'd BrookBondParameters
   \<Rightarrow> error option \<times> 'd BrookBondParameters" where
  "load_particles ii n bondIndex src s =
     (if ii < n then
        (case array_read src ii of
           Inl e \<Rightarrow> (Some e, s)
         | Inr v \<Rightarrow>
             (case push_back_at bondIndex v (particleIndices s) of
                Inl e \<Rightarrow> (Some e, s)
              | Inr rows \<Rightarrow>
                  load_particles (ii + 1) n bondIndex src (s\<lparr> particleIndices := rows \<rparr>)))
      else (None, s))"
  by pat_completeness auto
termination
  by (relation "measure (\<lambda>(ii, n, bondIndex, src, s). nat (n - ii))") auto

declare load_particles.simps [simp del]

text \<open>The second loop (lines 214-217), on \<^verbatim>\<open>_bondParameters[bondIndex]\<close>.\<close>

function load_parameters ::
  "c_int \<Rightarrow> c_int \<Rightarrow> c_int \<Rightarrow> 'd list \<Rightarrow> 'd BrookBondParameters
   \<Rightarrow> error option \<times> 'd BrookBondParameters" where
  "load_parameters ii n bondIndex src s =
     (if ii < n then
        (case array_read src ii of
           Inl e \<Rightarrow> (Some e, s)
         | Inr v \<Rightarrow>
             (case push_back_at bondIndex v (bondParameters s) of
                Inl e \<Rightarrow> (Some e, s)
              | Inr rows \<Rightarrow>
                  load_parameters (ii + 1) n bondIndex src (s\<lparr> bondParameters := rows \<rparr>)))
      else (None, s))"
  by pat_completeness auto
termination
  by (relation "measure (\<lambda>(ii, n, bondIndex, src, s). nat (n - ii))") auto

declare load_parameters.simps [simp del]

text \<open>
  The result of a call: the value returned or the error raised, the store after the call,
  and the text the call wrote to the log stream. \<^verbatim>\<open>setBond\<close> fetches the log handle
  (line 188) and never writes to it (the one \<^verbatim>\<open>fprintf\<close>, line 215, is commented out and
  went to \<^verbatim>\<open>stderr\<close>).
\<close>

definition methodName_setBond :: string where
  "methodName_setBond = ''BrookBondParameters::setBond''"

definition setBond ::
  "c_int \<Rightarrow> c_int list \<Rightarrow> 'd list \<Rightarrow> 'd BrookBondParameters
   \<Rightarrow> (error + c_int) \<times> 'd BrookBondParameters \<times> string list" where
  "setBond bondIndex particleIndices' bondParameters' s =
     (let lg = getLog s in
      if bondIndex < 0 then
        (Inl (OpenMMException
               (methodName_setBond @ ''BondIndex='' @ dec_int bondIndex @ '' is < 0.'')), s, [])
      else if bondIndex \<ge> getNumberOfBonds s then
        (Inl (OpenMMException
               (methodName_setBond @ ''BondIndex='' @ dec_int bondIndex @ '' is >= ''
                  @ dec_int (getNumberOfBonds s) @ ''.'')), s, [])
      else
        (case load_particles 0 (getNumberOfParticlesInBond s) bondIndex particleIndices' s of
           (Some e, s1) \<Rightarrow> (Inl e, s1, [])
         | (None, s1) \<Rightarrow>
             (case load_parameters 0 (getNumberOfParametersInBond s1) bondIndex bondParameters' s1 of
                (Some e, s2) \<Rightarrow> (Inl e, s2, [])
              | (None, s2) \<Rightarrow> (Inr DefaultReturnValue, s2, []))))"

section \<open>Character arrays and \<^verbatim>\<open>printf\<close> conversions\<close>

text \<open>
  \<^verbatim>\<open>std::string::c_str()\<close> passed to a \<^verbatim>\<open>%s\<close> conversion is read up to its first NUL
  character. \<^verbatim>\<open>%-40s\<close> pads on the right and \<^verbatim>\<open>%6d\<close> on the left with spaces up to the
  field width; a longer text is printed in full.
\<close>

definition newline :: char where
  "newline = CHR 0x0A"

definition c_str :: "string \<Rightarrow> string" where
  "c_str s = takeWhile (\<lambda>c. c \<noteq> CHR 0x00) s"

definition pad_left :: "nat \<Rightarrow> string \<Rightarrow> string" where
  "pad_left w s = replicate (w - length s) CHR '' '' @ s"

definition pad_right :: "nat \<Rightarrow> string \<Rightarrow> string" where
  "pad_right w s = s @ replicate (w - length s) CHR '' ''"

text \<open>
  \<^verbatim>\<open>sprintf\<close> into a character array of \<open>cap\<close> characters and \<^verbatim>\<open>strcat\<close> onto one:
  the text and its terminating NUL must fit, otherwise the call writes past the array
  (the fault \<open>BufferOverflow\<close>). A character array is modelled by the text before its
  terminator.
\<close>

definition sprintf_into :: "nat \<Rightarrow> string \<Rightarrow> error + string" where
  "sprintf_into cap txt = (if length txt < cap then Inr txt else Inl BufferOverflow)"

definition strcat_into :: "nat \<Rightarrow> string \<Rightarrow> string \<Rightarrow> error + string" where
  "strcat_into cap dst src =
     (if length dst + length src < cap then Inr (dst @ src) else Inl BufferOverflow)"

section \<open>\<^verbatim>\<open>_getLine\<close> (lines 235-258)\<close>

text \<open>
  \<^verbatim>\<open>sprintf( line, "%s %-40s %s", tab, description, value )\<close> into \<^verbatim>\<open>char line[256]\<close>,
  then the line and \<^verbatim>\<open>std::endl\<close> onto the string stream.
\<close>

definition MAX_LINE_CHARS_getLine :: nat where
  "MAX_LINE_CHARS_getLine = 256"

definition getLine :: "string \<Rightarrow> string \<Rightarrow> string \<Rightarrow> error + string" where
  "getLine tab description val =
     (case sprintf_into MAX_LINE_CHARS_getLine
             (c_str tab @ '' '' @ pad_right 40 (c_str description) @ '' '' @ c_str val) of
        Inl e \<Rightarrow> Inl e
      | Inr line \<Rightarrow> Inr (line @ [newline]))"

section \<open>\<^verbatim>\<open>getContentsString\<close> (lines 269-355)\<close>

text \<open>
  The branch compiled without \<^verbatim>\<open>_MSC_VER\<close> (lines 332-346). The conversion
  \<^verbatim>\<open>%18.10e\<close> of a \<^verbatim>\<open>double\<close> is the parameter \<open>e_fmt\<close>.
\<close>

definition MAX_LINE_CHARS :: nat where
  "MAX_LINE_CHARS = 1024"

definition tab_string :: string where
  "tab_string = ''   ''"

text \<open>The loop of lines 334-337, on the row \<^verbatim>\<open>_particleIndices[ii]\<close>.\<close>

function particle_columns ::
  "c_int \<Rightarrow> c_int \<Rightarrow> c_int \<Rightarrow> 'd BrookBondParameters \<Rightarrow> string \<Rightarrow> error + string" where
  "particle_columns jj n ii s description =
     (if jj < n then
        (case array_read (particleIndices s) ii of
           Inl e \<Rightarrow> Inl e
         | Inr row \<Rightarrow>
             (case array_read row jj of
                Inl e \<Rightarrow> Inl e
              | Inr v \<Rightarrow>
                  (case sprintf_into MAX_LINE_CHARS (pad_left 6 (dec_int v) @ '' '') of
                     Inl e \<Rightarrow> Inl e
                   | Inr buffer \<Rightarrow>
                       (case strcat_into MAX_LINE_CHARS description buffer of
                          Inl e \<Rightarrow> Inl e
                        | Inr description' \<Rightarrow> particle_columns (jj + 1) n ii s description'))))
      else Inr description)"
  by pat_completeness auto
termination
  by (relation "measure (\<lambda>(jj, n, ii, s, description). nat (n - jj))") auto

declare particle_columns.simps [simp del]

text \<open>The loop of lines 342-345, on the row \<^verbatim>\<open>_bondParameters[ii]\<close>.\<close>

function parameter_columns ::
  "('d \<Rightarrow> string) \<Rightarrow> c_int \<Rightarrow> c_int \<Rightarrow> c_int \<Rightarrow> 'd BrookBondParameters \<Rightarrow> string
   \<Rightarrow> error + string" where
  "parameter_columns e_fmt jj n ii s description =
     (if jj < n then
        (case array_read (bondParameters s) ii of
           Inl e \<Rightarrow> Inl e
         | Inr row \<Rightarrow>
             (case array_read row jj of
                Inl e \<Rightarrow> Inl e
              | Inr x \<Rightarrow>
                  (case sprintf_into MAX_LINE_CHARS (e_fmt x @ '' '') of
                     Inl e \<Rightarrow> Inl e
                   | Inr buffer \<Rightarrow>
                       (case strcat_into MAX_LINE_CHARS description buffer of
                          Inl e \<Rightarrow> Inl e
                        | Inr description' \<Rightarrow>
                            parameter_columns e_fmt (jj + 1) n ii s description'))))
      else Inr description)"
  by pat_completeness auto
termination
  by (relation "measure (\<lambda>(e_fmt, jj, n, ii, s, description). nat (n - jj))") auto

declare parameter_columns.simps [simp del]

text \<open>The body of the loop over the bonds (lines 307-348): the line of bond \<open>ii\<close>.\<close>

definition bond_line :: "('d \<Rightarrow> string) \<Rightarrow> c_int \<Rightarrow> 'd BrookBondParameters \<Rightarrow> error + string" where
  "bond_line e_fmt ii s =
     (case sprintf_into MAX_LINE_CHARS (pad_left 6 (dec_int ii) @ '' ['') of
        Inl e \<Rightarrow> Inl e
      | Inr d0 \<Rightarrow>
          (case particle_columns 0 (getNumberOfParticlesInBond s) ii s d0 of
             Inl e \<Rightarrow> Inl e
           | Inr d1 \<Rightarrow>
               (case strcat_into MAX_LINE_CHARS d1 ''] ['' of
                  Inl e \<Rightarrow> Inl e
                | Inr d2 \<Rightarrow>
                    (case parameter_columns e_fmt 0 (getNumberOfParametersInBond s) ii s d2 of
                       Inl e \<Rightarrow> Inl e
                     | Inr d3 \<Rightarrow>
                         (case strcat_into MAX_LINE_CHARS d3 '']'' of
                            Inl e \<Rightarrow> Inl e
                          | Inr d4 \<Rightarrow> getLine tab_string [] d4)))))"

text \<open>The loop over the bonds (line 306), appending to the stream \<open>message\<close>.\<close>

function bond_lines ::
  "('d \<Rightarrow> string) \<Rightarrow> c_int \<Rightarrow> 'd BrookBondParameters \<Rightarrow> string \<Rightarrow> error + string" where
  "bond_lines e_fmt ii s message =
     (if ii < getNumberOfBonds s then
        (case bond_line e_fmt ii s of
           Inl e \<Rightarrow> Inl e
         | Inr line \<Rightarrow> bond_lines e_fmt (ii + 1) s (message @ line))
      else Inr message)"
  by pat_completeness auto
termination
  by (relation "measure (\<lambda>(e_fmt, ii, s, message). nat (getNumberOfBonds s - ii))") auto

declare bond_lines.simps [simp del]

text \<open>
  The four lines of the scalar fields (lines 293-303): each value is printed into
  \<^verbatim>\<open>char value[1024]\<close> and handed to \<^verbatim>\<open>_getLine\<close>.
\<close>

definition scalar_line :: "string \<Rightarrow> string \<Rightarrow> error + string" where
  "scalar_line description txt =
     (case sprintf_into MAX_LINE_CHARS txt of
        Inl e \<Rightarrow> Inl e
      | Inr val \<Rightarrow> getLine tab_string description val)"

definition getContentsString ::
  "('d \<Rightarrow> string) \<Rightarrow> c_int \<Rightarrow> 'd BrookBondParameters \<Rightarrow> error + string" where
  "getContentsString e_fmt level s =
     (case scalar_line ''Bond name:'' (c_str (getBondName s)) of
        Inl e \<Rightarrow> Inl e
      | Inr l1 \<Rightarrow>
          (case scalar_line ''Number of bonds:'' (dec_int (getNumberOfBonds s)) of
             Inl e \<Rightarrow> Inl e
           | Inr l2 \<Rightarrow>
               (case scalar_line ''Particles/bond:'' (dec_int (getNumberOfParticlesInBond s)) of
                  Inl e \<Rightarrow> Inl e
                | Inr l3 \<Rightarrow>
                    (case scalar_line ''Parameters/bond:''
                            (dec_int (getNumberOfParametersInBond s)) of
                       Inl e \<Rightarrow> Inl e
                     | Inr l4 \<Rightarrow>
                         bond_lines e_fmt 0 s
                           (l1 @ l2 @ l3 @ l4 @ ''Bonds:'' @ [newline])))))"

section \<open>Invariant and operations\<close>

text \<open>The two outer vectors hold one row per bond.\<close>

definition store_inv :: "'d BrookBondParameters \<Rightarrow> bool" where
  "store_inv s =
     (int (length (particleIndices s)) = numberOfBonds s \<and>
      int (length (bondParameters s)) = numberOfBonds s)"

text \<open>
  The public member functions, and the store each of them leaves behind, whether the call
  returns or raises. The member functions declared \<^verbatim>\<open>const\<close> leave the store as it is.
\<close>

datatype 'd operation =
    SetBond c_int "c_int list" "'d list"
  | SetLog FILE_ptr
  | GetParticleIndices
  | GetBondParameters
  | GetLog
  | GetBondName
  | GetNumberOfBonds
  | GetNumberOfParticlesInBond
  | GetNumberOfParametersInBond
  | GetContentsString c_int

fun store_after :: "'d operation \<Rightarrow> 'd BrookBondParameters \<Rightarrow> 'd BrookBondParameters" where
  "store_after (SetBond bondIndex pis bps) s = fst (snd (setBond bondIndex pis bps s))"
| "store_after (SetLog lg) s = snd (setLog lg s)"
| "store_after GetParticleIndices s = s"
| "store_after GetBondParameters s = s"
| "store_after GetLog s = s"
| "store_after GetBondName s = s"
| "store_after GetNumberOfBonds s = s"
| "store_after GetNumberOfParticlesInBond s = s"
| "store_after GetNumberOfParametersInBond s = s"
| "store_after (GetContentsString level) s = s"

section \<open>The rendering, stated\<close>

text \<open>
  The text of the dump as the code produces it: a line is the tab string, a space, the
  description padded to 40 columns, a space and the value; the line of a bond has an empty
  description and, as its value, the index, the particle indices and the parameters, each
  element followed by a space.
\<close>

definition rendered_line :: "string \<Rightarrow> string \<Rightarrow> string" where
  "rendered_line description val =
     tab_string @ '' '' @ pad_right 40 description @ '' '' @ val"

definition rendered_bond :: "('d \<Rightarrow> string) \<Rightarrow> 'd BrookBondParameters \<Rightarrow> nat \<Rightarrow> string" where
  "rendered_bond e_fmt s i =
     pad_left 6 (dec_int (int i)) @ '' [''
     @ concat (map (\<lambda>v. pad_left 6 (dec_int v) @ '' '')
                 (take (nat (getNumberOfParticlesInBond s)) (particleIndices s ! i)))
     @ ''] [''
     @ concat (map (\<lambda>x. e_fmt x @ '' '')
                 (take (nat (getNumberOfParametersInBond s)) (bondParameters s ! i)))
     @ '']''"

definition rendered_scalars :: "'d BrookBondParameters \<Rightarrow> string list" where
  "rendered_scalars s =
     [rendered_line ''Bond name:'' (c_str (getBondName s)),
      rendered_line ''Number of bonds:'' (dec_int (getNumberOfBonds s)),
      rendered_line ''Particles/bond:'' (dec_int (getNumberOfParticlesInBond s)),
      rendered_line ''Parameters/bond:'' (dec_int (getNumberOfParametersInBond s))]"

definition rendered_lines :: "('d \<Rightarrow> string) \<Rightarrow> 'd BrookBondParameters \<Rightarrow> string list" where
  "rendered_lines e_fmt s =
     rendered_scalars s @ [''Bonds:'']
     @ map (\<lambda>i. rendered_line [] (rendered_bond e_fmt s i)) [0..<nat (getNumberOfBonds s)]"

text \<open>A list of lines as one text, each line ended by \<^verbatim>\<open>std::endl\<close>.\<close>

definition terminated :: "string list \<Rightarrow> string" where
  "terminated ls = concat (map (\<lambda>l. l @ [newline]) ls)"

text \<open>
  The conditions under which the dump is produced: every bond has its rows, filled up to
  the two counts; the conversion of a parameter produces no NUL character; and every line
  fits the 256 characters of the line buffer of \<^verbatim>\<open>_getLine\<close>.
\<close>

definition rows_filled :: "'d BrookBondParameters \<Rightarrow> bool" where
  "rows_filled s =
     (\<forall>i < nat (getNumberOfBonds s).
        i < length (particleIndices s) \<and> i < length (bondParameters s) \<and>
        nat (getNumberOfParticlesInBond s) \<le> length (particleIndices s ! i) \<and>
        nat (getNumberOfParametersInBond s) \<le> length (bondParameters s ! i))"

definition lines_fit :: "('d \<Rightarrow> string) \<Rightarrow> 'd BrookBondParameters \<Rightarrow> bool" where
  "lines_fit e_fmt s =
     (\<forall>l \<in> set (rendered_lines e_fmt s). length l < MAX_LINE_CHARS_getLine)"

definition no_NUL :: "('d \<Rightarrow> string) \<Rightarrow> bool" where
  "no_NUL e_fmt = (\<forall>x. CHR 0x00 \<notin> set (e_fmt x))"

text \<open>
  The format as the specification words it: the tab string, the description padded to 40
  columns and the value, with nothing in between; a bond's line is the tab string and the
  bond's text.
\<close>

definition spec_line :: "string \<Rightarrow> string \<Rightarrow> string" where
  "spec_line description val = tab_string @ pad_right 40 description @ val"

definition spec_scalars :: "'d BrookBondParameters \<Rightarrow> string list" where
  "spec_scalars s =
     [spec_line ''Bond name:'' (c_str (getBondName s)),
      spec_line ''Number of bonds:'' (dec_int (getNumberOfBonds s)),
      spec_line ''Particles/bond:'' (dec_int (getNumberOfParticlesInBond s)),
      spec_line ''Parameters/bond:'' (dec_int (getNumberOfParametersInBond s))]"

definition spec_bond_line :: "('d \<Rightarrow> string) \<Rightarrow> 'd BrookBondParameters \<Rightarrow> nat \<Rightarrow> string" where
  "spec_bond_line e_fmt s i = tab_string @ rendered_bond e_fmt s i"

section \<open>The scenario of the specification\<close>

text \<open>
  A store named HarmonicBond with two particles and two parameters per bond and one bond,
  as constructed and after \<^verbatim>\<open>setBond( 0, {3, 7}, {1.5, 120.0} )\<close>; and the same store
  with no bond at all. \<open>e_table\<close> gives the \<^verbatim>\<open>%18.10e\<close> conversions of the two parameters.
\<close>

definition harmonic_fresh :: "real BrookBondParameters" where
  "harmonic_fresh =
     \<lparr> bondName = ''HarmonicBond'', numberOfParticlesInBond = 2, numberOfParametersInBond = 2,
       numberOfBonds = 1, log_ptr = None, bondParameters = [[]], particleIndices = [[]] \<rparr>"

definition harmonic_set :: "real BrookBondParameters" where
  "harmonic_set =
     \<lparr> bondName = ''HarmonicBond'', numberOfParticlesInBond = 2, numberOfParametersInBond = 2,
       numberOfBonds = 1, log_ptr = None, bondParameters = [[3 / 2, 120]],
       particleIndices = [[3, 7]] \<rparr>"

definition harmonic_none :: "real BrookBondParameters" where
  "harmonic_none =
     \<lparr> bondName = ''HarmonicBond'', numberOfParticlesInBond = 2, numberOfParametersInBond = 2,
       numberOfBonds = 0, log_ptr = None, bondParameters = [], particleIndices = [] \<rparr>"

definition e_table :: "real \<Rightarrow> string" where
  "e_table x = (if x = 120 then ''  1.2000000000e+02'' else ''  1.5000000000e+00'')"

section \<open>Facts about the constructor and setBond\<close>

lemma size_t_of_int_nonneg: "0 \<le> n \<Longrightarrow> c_int_range n \<Longrightarrow> size_t_of_int n = nat n"
  by (simp add: size_t_of_int_def c_int_range_def)

lemma size_t_of_int_neg:
  assumes "n < 0" "c_int_range n" shows "vector_max_size < size_t_of_int n"
proof -
  have "(n + 2 ^ 64) mod 2 ^ 64 = n + 2 ^ 64"
    using assms by (intro mod_pos_pos_trivial) (auto simp: c_int_range_def)
  then have "n mod 2 ^ 64 = n + 2 ^ 64" by simp
  then show ?thesis using assms
    by (simp add: size_t_of_int_def vector_max_size_def c_int_range_def)
qed

lemma vector_max_size_large: "c_int_range n \<Longrightarrow> nat n \<le> vector_max_size"
  by (auto simp: vector_max_size_def c_int_range_def nat_le_iff)

lemma vector_resize_nonneg:
  "0 \<le> n \<Longrightarrow> c_int_range n \<Longrightarrow> vector_resize n d [] = Inr (replicate (nat n) d)"
  using vector_max_size_large [of n]
  by (simp add: vector_resize_def size_t_of_int_nonneg Let_def)

lemma vector_resize_neg:
  "n < 0 \<Longrightarrow> c_int_range n \<Longrightarrow> vector_resize n d v = Inl LengthError"
  using size_t_of_int_neg [of n] by (simp add: vector_resize_def Let_def)

lemma ctor_nonneg:
  "0 \<le> n \<Longrightarrow> c_int_range n \<Longrightarrow>
   BrookBondParameters_ctor name a b n lg =
     Inr (\<lparr> bondName = name, numberOfParticlesInBond = a, numberOfParametersInBond = b,
           numberOfBonds = n, log_ptr = lg,
           bondParameters = replicate (nat n) [], particleIndices = replicate (nat n) [] \<rparr>
          :: 'd BrookBondParameters)"
  by (simp add: BrookBondParameters_ctor_def vector_resize_nonneg)

lemma ctor_neg:
  "n < 0 \<Longrightarrow> c_int_range n \<Longrightarrow> BrookBondParameters_ctor name a b n lg = (Inl LengthError :: error + 'd BrookBondParameters)"
  by (simp add: BrookBondParameters_ctor_def vector_resize_neg)

lemma drop_take_step:
  assumes "0 \<le> ii" "ii < n" "nat n \<le> length src"
  shows "drop (nat ii) (take (nat n) src) = src ! nat ii # drop (nat (ii + 1)) (take (nat n) src)"
proof -
  have lt: "nat ii < length (take (nat n) src)" using assms by simp
  have "nat (ii + 1) = Suc (nat ii)" using assms by simp
  with Cons_nth_drop_Suc [OF lt] assms show ?thesis by simp
qed

lemma load_particles_ok:
  "0 \<le> ii \<Longrightarrow> 0 \<le> bondIndex \<Longrightarrow> nat bondIndex < length (particleIndices s) \<Longrightarrow>
   nat n \<le> length src \<Longrightarrow>
   load_particles ii n bondIndex src s =
     (None, s\<lparr> particleIndices := (particleIndices s)
        [nat bondIndex := particleIndices s ! nat bondIndex @ drop (nat ii) (take (nat n) src)] \<rparr>)"
proof (induction ii n bondIndex src s rule: load_particles.induct)
  case (1 ii n bondIndex src s)
  show ?case
  proof (cases "ii < n")
    case False
    then have "drop (nat ii) (take (nat n) src) = []" by simp
    with False show ?thesis
      by (subst load_particles.simps) (simp add: list_update_same_conv)
  next
    case True
    have rd: "array_read src ii = Inr (src ! nat ii)"
      using True "1.prems" by (simp add: array_read_def)
    let ?rows = "(particleIndices s)[nat bondIndex := particleIndices s ! nat bondIndex @ [src ! nat ii]]"
    have pb: "push_back_at bondIndex (src ! nat ii) (particleIndices s) = Inr ?rows"
      using "1.prems" by (simp add: push_back_at_def)
    have ih: "load_particles (ii + 1) n bondIndex src (s\<lparr>particleIndices := ?rows\<rparr>) =
       (None, (s\<lparr>particleIndices := ?rows\<rparr>)\<lparr> particleIndices := (particleIndices (s\<lparr>particleIndices := ?rows\<rparr>))
        [nat bondIndex := particleIndices (s\<lparr>particleIndices := ?rows\<rparr>) ! nat bondIndex @ drop (nat (ii + 1)) (take (nat n) src)] \<rparr>)"
      using "1.IH" [OF True rd pb] "1.prems" by simp
    show ?thesis
      apply (subst load_particles.simps)
      using True rd pb ih "1.prems" drop_take_step [of ii n src]
      by simp
  qed
qed

lemma load_parameters_ok:
  "0 \<le> ii \<Longrightarrow> 0 \<le> bondIndex \<Longrightarrow> nat bondIndex < length (bondParameters s) \<Longrightarrow>
   nat n \<le> length src \<Longrightarrow>
   load_parameters ii n bondIndex src s =
     (None, s\<lparr> bondParameters := (bondParameters s)
        [nat bondIndex := bondParameters s ! nat bondIndex @ drop (nat ii) (take (nat n) src)] \<rparr>)"
proof (induction ii n bondIndex src s rule: load_parameters.induct)
  case (1 ii n bondIndex src s)
  show ?case
  proof (cases "ii < n")
    case False
    then have "drop (nat ii) (take (nat n) src) = []" by simp
    with False show ?thesis
      by (subst load_parameters.simps) (simp add: list_update_same_conv)
  next
    case True
    have rd: "array_read src ii = Inr (src ! nat ii)"
      using True "1.prems" by (simp add: array_read_def)
    let ?rows = "(bondParameters s)[nat bondIndex := bondParameters s ! nat bondIndex @ [src ! nat ii]]"
    have pb: "push_back_at bondIndex (src ! nat ii) (bondParameters s) = Inr ?rows"
      using "1.prems" by (simp add: push_back_at_def)
    have ih: "load_parameters (ii + 1) n bondIndex src (s\<lparr>bondParameters := ?rows\<rparr>) =
       (None, (s\<lparr>bondParameters := ?rows\<rparr>)\<lparr> bondParameters := (bondParameters (s\<lparr>bondParameters := ?rows\<rparr>))
        [nat bondIndex := bondParameters (s\<lparr>bondParameters := ?rows\<rparr>) ! nat bondIndex @ drop (nat (ii + 1)) (take (nat n) src)] \<rparr>)"
      using "1.IH" [OF True rd pb] "1.prems" by simp
    show ?thesis
      apply (subst load_parameters.simps)
      using True rd pb ih "1.prems" drop_take_step [of ii n src]
      by simp
  qed
qed

lemma push_back_at_length: "push_back_at i v rows = Inr rows' \<Longrightarrow> length rows' = length rows"
  by (auto simp: push_back_at_def split: if_splits)

lemma array_read_fault: "array_read p i = Inl e \<Longrightarrow> e = OutOfBounds"
  by (auto simp: array_read_def split: if_splits)

lemma push_back_at_fault: "push_back_at i v rows = Inl e \<Longrightarrow> e = OutOfBounds"
  by (auto simp: push_back_at_def split: if_splits)

lemma load_particles_frame:
  "load_particles ii n bondIndex src s = (r, s') \<Longrightarrow>
   (\<exists>row. s' = s\<lparr> particleIndices := (particleIndices s)[nat bondIndex := row] \<rparr>)
   \<and> (r = None \<or> r = Some OutOfBounds)"
proof (induction ii n bondIndex src s arbitrary: r s' rule: load_particles.induct)
  case (1 ii n bondIndex src s)
  have same: "s = s\<lparr> particleIndices :=
      (particleIndices s)[nat bondIndex := particleIndices s ! nat bondIndex] \<rparr>"
    by simp
  show ?case
  proof (cases "ii < n")
    case False
    with "1.prems" have "s' = s" "r = None" by (simp_all add: load_particles.simps [of ii n])
    with same show ?thesis by blast
  next
    case True
    show ?thesis
    proof (cases "array_read src ii")
      case (Inl e)
      with True "1.prems" array_read_fault [OF Inl] have "s' = s" "r = Some OutOfBounds"
        by (simp_all add: load_particles.simps [of ii n])
      with same show ?thesis by blast
    next
      case (Inr v)
      show ?thesis
      proof (cases "push_back_at bondIndex v (particleIndices s)")
        case (Inl e)
        with True Inr "1.prems" push_back_at_fault [OF Inl] have "s' = s" "r = Some OutOfBounds"
          by (simp_all add: load_particles.simps [of ii n])
        with same show ?thesis by blast
      next
        case (Inr rows)
        have rec: "load_particles (ii + 1) n bondIndex src (s\<lparr>particleIndices := rows\<rparr>) = (r, s')"
          using True \<open>array_read src ii = Inr v\<close> Inr "1.prems"
          by (simp add: load_particles.simps [of ii n])
        from "1.IH" [OF True \<open>array_read src ii = Inr v\<close> Inr rec]
        obtain row where s': "s' = s\<lparr>particleIndices := rows[nat bondIndex := row]\<rparr>"
          and r: "r = None \<or> r = Some OutOfBounds" by auto
        from Inr have "rows[nat bondIndex := row] = (particleIndices s)[nat bondIndex := row]"
          by (auto simp: push_back_at_def split: if_splits)
        with s' r show ?thesis by auto
      qed
    qed
  qed
qed

lemma load_parameters_frame:
  "load_parameters ii n bondIndex src s = (r, s') \<Longrightarrow>
   (\<exists>row. s' = s\<lparr> bondParameters := (bondParameters s)[nat bondIndex := row] \<rparr>)
   \<and> (r = None \<or> r = Some OutOfBounds)"
proof (induction ii n bondIndex src s arbitrary: r s' rule: load_parameters.induct)
  case (1 ii n bondIndex src s)
  have same: "s = s\<lparr> bondParameters :=
      (bondParameters s)[nat bondIndex := bondParameters s ! nat bondIndex] \<rparr>"
    by simp
  show ?case
  proof (cases "ii < n")
    case False
    with "1.prems" have "s' = s" "r = None" by (simp_all add: load_parameters.simps [of ii n])
    with same show ?thesis by blast
  next
    case True
    show ?thesis
    proof (cases "array_read src ii")
      case (Inl e)
      with True "1.prems" array_read_fault [OF Inl] have "s' = s" "r = Some OutOfBounds"
        by (simp_all add: load_parameters.simps [of ii n])
      with same show ?thesis by blast
    next
      case (Inr v)
      show ?thesis
      proof (cases "push_back_at bondIndex v (bondParameters s)")
        case (Inl e)
        with True Inr "1.prems" push_back_at_fault [OF Inl] have "s' = s" "r = Some OutOfBounds"
          by (simp_all add: load_parameters.simps [of ii n])
        with same show ?thesis by blast
      next
        case (Inr rows)
        have rec: "load_parameters (ii + 1) n bondIndex src (s\<lparr>bondParameters := rows\<rparr>) = (r, s')"
          using True \<open>array_read src ii = Inr v\<close> Inr "1.prems"
          by (simp add: load_parameters.simps [of ii n])
        from "1.IH" [OF True \<open>array_read src ii = Inr v\<close> Inr rec]
        obtain row where s': "s' = s\<lparr>bondParameters := rows[nat bondIndex := row]\<rparr>"
          and r: "r = None \<or> r = Some OutOfBounds" by auto
        from Inr have "rows[nat bondIndex := row] = (bondParameters s)[nat bondIndex := row]"
          by (auto simp: push_back_at_def split: if_splits)
        with s' r show ?thesis by auto
      qed
    qed
  qed
qed

lemma setBond_valid:
  assumes "0 \<le> bondIndex" "bondIndex < getNumberOfBonds s"
    and "nat bondIndex < length (particleIndices s)" "nat bondIndex < length (bondParameters s)"
    and "nat (getNumberOfParticlesInBond s) \<le> length pis"
    and "nat (getNumberOfParametersInBond s) \<le> length bps"
  shows "setBond bondIndex pis bps s =
     (Inr DefaultReturnValue,
      s\<lparr> particleIndices := (particleIndices s)
            [nat bondIndex := particleIndices s ! nat bondIndex
                                @ take (nat (getNumberOfParticlesInBond s)) pis],
          bondParameters := (bondParameters s)
            [nat bondIndex := bondParameters s ! nat bondIndex
                                @ take (nat (getNumberOfParametersInBond s)) bps] \<rparr>,
      [])"
proof -
  let ?s1 = "s\<lparr> particleIndices := (particleIndices s)
            [nat bondIndex := particleIndices s ! nat bondIndex
                                @ take (nat (getNumberOfParticlesInBond s)) pis] \<rparr>"
  have l1: "load_particles 0 (getNumberOfParticlesInBond s) bondIndex pis s = (None, ?s1)"
    using load_particles_ok [of 0 bondIndex s "getNumberOfParticlesInBond s" pis] assms by simp
  have n1: "getNumberOfParametersInBond ?s1 = getNumberOfParametersInBond s"
    by (simp add: getNumberOfParametersInBond_def)
  have l2: "load_parameters 0 (getNumberOfParametersInBond ?s1) bondIndex bps ?s1 =
      (None, ?s1\<lparr> bondParameters := (bondParameters s)
            [nat bondIndex := bondParameters s ! nat bondIndex
                                @ take (nat (getNumberOfParametersInBond s)) bps] \<rparr>)"
    using load_parameters_ok [of 0 bondIndex ?s1 "getNumberOfParametersInBond s" bps] assms n1
    by simp
  show ?thesis
    unfolding setBond_def Let_def using assms(1,2) l1 l2 by simp
qed

lemma setBond_invalid:
  "bondIndex < 0 \<or> getNumberOfBonds s \<le> bondIndex \<Longrightarrow>
   setBond bondIndex pis bps s =
     (Inl (OpenMMException
        (if bondIndex < 0
         then methodName_setBond @ ''BondIndex='' @ dec_int bondIndex @ '' is < 0.''
         else methodName_setBond @ ''BondIndex='' @ dec_int bondIndex @ '' is >= ''
                @ dec_int (getNumberOfBonds s) @ ''.'')), s, [])"
  by (auto simp: setBond_def Let_def)

lemma setBond_frame:
  assumes a: "setBond bondIndex pis bps s = (r, s', w)"
  shows "(\<exists>row row'. s' = s\<lparr> particleIndices := (particleIndices s)[nat bondIndex := row],
                               bondParameters := (bondParameters s)[nat bondIndex := row'] \<rparr>)
         \<and> w = []"
proof -
  have same: "s = s\<lparr> particleIndices :=
      (particleIndices s)[nat bondIndex := particleIndices s ! nat bondIndex],
      bondParameters := (bondParameters s)[nat bondIndex := bondParameters s ! nat bondIndex] \<rparr>"
    by simp
  show ?thesis
  proof (cases "bondIndex < 0 \<or> getNumberOfBonds s \<le> bondIndex")
    case True
    from setBond_invalid [OF True, of pis bps] a have "s' = s" "w = []" by simp_all
    with same show ?thesis by blast
  next
    case False
    obtain r1 s1 where
      l1: "load_particles 0 (getNumberOfParticlesInBond s) bondIndex pis s = (r1, s1)"
      by (cases "load_particles 0 (getNumberOfParticlesInBond s) bondIndex pis s") auto
    from load_particles_frame [OF l1] obtain row where
      s1: "s1 = s\<lparr>particleIndices := (particleIndices s)[nat bondIndex := row]\<rparr>"
      by auto
    have s1': "s1 = s\<lparr>particleIndices := (particleIndices s)[nat bondIndex := row],
       bondParameters := (bondParameters s)[nat bondIndex := bondParameters s ! nat bondIndex]\<rparr>"
      using s1 by simp
    show ?thesis
    proof (cases r1)
      case (Some e)
      with a l1 False have "s' = s1" "w = []" by (auto simp: setBond_def Let_def)
      with s1' show ?thesis by blast
    next
      case None
      obtain r2 s2 where
        l2: "load_parameters 0 (getNumberOfParametersInBond s1) bondIndex bps s1 = (r2, s2)"
        by (cases "load_parameters 0 (getNumberOfParametersInBond s1) bondIndex bps s1") auto
      from load_parameters_frame [OF l2] obtain row' where
        s2: "s2 = s1\<lparr>bondParameters := (bondParameters s1)[nat bondIndex := row']\<rparr>"
        by auto
      from a l1 l2 None False have "s' = s2" "w = []"
        by (cases r2; auto simp: setBond_def Let_def)+
      with s1 s2 have "s' = s\<lparr> particleIndices := (particleIndices s)[nat bondIndex := row],
                               bondParameters := (bondParameters s)[nat bondIndex := row'] \<rparr>"
        and "w = []" by simp_all
      then show ?thesis by blast
    qed
  qed
qed

lemma setBond_raises:
  "fst (setBond bondIndex pis bps s) = Inl (OpenMMException msg) \<Longrightarrow>
   bondIndex < 0 \<or> getNumberOfBonds s \<le> bondIndex"
proof (rule ccontr)
  assume a: "fst (setBond bondIndex pis bps s) = Inl (OpenMMException msg)"
  assume False: "\<not> (bondIndex < 0 \<or> getNumberOfBonds s \<le> bondIndex)"
  obtain r1 s1 where l1: "load_particles 0 (getNumberOfParticlesInBond s) bondIndex pis s = (r1, s1)"
    by (cases "load_particles 0 (getNumberOfParticlesInBond s) bondIndex pis s") auto
  obtain r2 s2 where l2: "load_parameters 0 (getNumberOfParametersInBond s1) bondIndex bps s1 = (r2, s2)"
    by (cases "load_parameters 0 (getNumberOfParametersInBond s1) bondIndex bps s1") auto
  from load_particles_frame [OF l1] have r1: "r1 = None \<or> r1 = Some OutOfBounds" by simp
  from load_parameters_frame [OF l2] have r2: "r2 = None \<or> r2 = Some OutOfBounds" by simp
  from a False l1 l2 r1 r2 show False
    by (auto simp: setBond_def Let_def)
qed

section \<open>Properties of setBond\<close>

lemma setBond_returns:
  assumes "setBond bondIndex pis bps s = (Inr r, s', w)"
  shows "0 \<le> bondIndex \<and> bondIndex < getNumberOfBonds s \<and> r = DefaultReturnValue"
proof -
  have v: "\<not> (bondIndex < 0 \<or> getNumberOfBonds s \<le> bondIndex)"
    using assms setBond_invalid [of bondIndex s pis bps] by auto
  obtain r1 s1 where l1: "load_particles 0 (getNumberOfParticlesInBond s) bondIndex pis s = (r1, s1)"
    by (cases "load_particles 0 (getNumberOfParticlesInBond s) bondIndex pis s") auto
  obtain r2 s2 where l2: "load_parameters 0 (getNumberOfParametersInBond s1) bondIndex bps s1 = (r2, s2)"
    by (cases "load_parameters 0 (getNumberOfParametersInBond s1) bondIndex bps s1") auto
  from assms v l1 l2 have "r = DefaultReturnValue"
    by (cases r1; cases r2; auto simp: setBond_def Let_def)
  with v show ?thesis by auto
qed

text \<open>
  Claim C1. On a store with one row per bond, for a valid bond index (\<open>0 \<le> bondIndex\<close> and
  \<open>bondIndex < bondCount\<close>) whose two rows are still empty (no earlier call on that
  index), one call of \<^verbatim>\<open>setBond\<close> with arrays of \<open>particlesPerBond\<close> integers and
  \<open>parametersPerBond\<close> numbers returns the success value, and afterwards
  \<^verbatim>\<open>getParticleIndices()[bondIndex]\<close> is the array of indices and
  \<^verbatim>\<open>getBondParameters()[bondIndex]\<close> the array of parameters, in input order.
\<close>

theorem setBond_once:
  assumes "store_inv s" and "0 \<le> bondIndex" and "bondIndex < getNumberOfBonds s"
    and "length pis = nat (getNumberOfParticlesInBond s)"
    and "length bps = nat (getNumberOfParametersInBond s)"
    and "getParticleIndices s ! nat bondIndex = []"
    and "getBondParameters s ! nat bondIndex = []"
  shows "\<exists>s'. setBond bondIndex pis bps s = (Inr DefaultReturnValue, s', [])
           \<and> getParticleIndices s' ! nat bondIndex = pis
           \<and> getBondParameters s' ! nat bondIndex = bps"
proof -
  have k: "nat bondIndex < length (particleIndices s)" "nat bondIndex < length (bondParameters s)"
    using assms(1-3) by (auto simp: store_inv_def getNumberOfBonds_def)
  from setBond_valid [OF assms(2,3) k, of pis bps] assms(4-7) k
  show ?thesis
    by (simp add: getParticleIndices_def getBondParameters_def)
qed

theorem setBond_once_witness:
  "store_inv harmonic_fresh \<and> (0::int) \<le> 0 \<and> 0 < getNumberOfBonds harmonic_fresh
   \<and> length [3, 7 :: int] = nat (getNumberOfParticlesInBond harmonic_fresh)
   \<and> length [3 / 2, 120 :: real] = nat (getNumberOfParametersInBond harmonic_fresh)
   \<and> getParticleIndices harmonic_fresh ! nat 0 = []
   \<and> getBondParameters harmonic_fresh ! nat 0 = []
   \<and> (\<exists>s'. setBond 0 [3, 7] [3 / 2, 120] harmonic_fresh = (Inr DefaultReturnValue, s', [])
           \<and> getParticleIndices s' ! nat 0 = [3, 7]
           \<and> getBondParameters s' ! nat 0 = [3 / 2, 120])"
  using setBond_once [of harmonic_fresh 0 "[3, 7]" "[3 / 2, 120]"]
  by (simp add: harmonic_fresh_def store_inv_def getNumberOfBonds_def
      getNumberOfParticlesInBond_def getNumberOfParametersInBond_def
      getParticleIndices_def getBondParameters_def)

text \<open>
  Claim C2. \<^verbatim>\<open>setBond\<close> raises its exception exactly when \<open>bondIndex < 0\<close> or
  \<open>bondIndex \<ge> bondCount\<close>. The message holds the index in decimal and the bound it
  violates (the text \<^verbatim>\<open>0\<close>, or the bond count in decimal), and the call leaves the store as
  it was and writes nothing: the two checks come before the first \<^verbatim>\<open>push_back\<close>.
\<close>

theorem setBond_index_error:
  "((bondIndex < 0 \<or> getNumberOfBonds s \<le> bondIndex)
      = (\<exists>msg. fst (setBond bondIndex pis bps s) = Inl (OpenMMException msg)))
   \<and> (bondIndex < 0 \<longrightarrow>
        setBond bondIndex pis bps s =
          (Inl (OpenMMException
             (methodName_setBond @ ''BondIndex='' @ dec_int bondIndex @ '' is < 0.'')), s, []))
   \<and> (0 \<le> bondIndex \<and> getNumberOfBonds s \<le> bondIndex \<longrightarrow>
        setBond bondIndex pis bps s =
          (Inl (OpenMMException
             (methodName_setBond @ ''BondIndex='' @ dec_int bondIndex @ '' is >= ''
                @ dec_int (getNumberOfBonds s) @ ''.'')), s, []))"
proof (intro conjI impI)
  show "(bondIndex < 0 \<or> getNumberOfBonds s \<le> bondIndex)
      = (\<exists>msg. fst (setBond bondIndex pis bps s) = Inl (OpenMMException msg))"
  proof
    assume "bondIndex < 0 \<or> getNumberOfBonds s \<le> bondIndex"
    from setBond_invalid [OF this, of pis bps]
    show "\<exists>msg. fst (setBond bondIndex pis bps s) = Inl (OpenMMException msg)" by simp
  next
    assume "\<exists>msg. fst (setBond bondIndex pis bps s) = Inl (OpenMMException msg)"
    then show "bondIndex < 0 \<or> getNumberOfBonds s \<le> bondIndex"
      using setBond_raises by blast
  qed
next
  assume "bondIndex < 0"
  then show "setBond bondIndex pis bps s =
          (Inl (OpenMMException
             (methodName_setBond @ ''BondIndex='' @ dec_int bondIndex @ '' is < 0.'')), s, [])"
    using setBond_invalid [of bondIndex s pis bps] by simp
next
  assume "0 \<le> bondIndex \<and> getNumberOfBonds s \<le> bondIndex"
  then show "setBond bondIndex pis bps s =
          (Inl (OpenMMException
             (methodName_setBond @ ''BondIndex='' @ dec_int bondIndex @ '' is >= ''
                @ dec_int (getNumberOfBonds s) @ ''.'')), s, [])"
    using setBond_invalid [of bondIndex s pis bps] by simp
qed

lemma dec_int_1: "dec_int 1 = ''1''"
  by (simp add: dec_int_def digit_char_def dec_nat.simps)

lemma dec_int_m1: "dec_int (- 1) = ''-1''"
  by (simp add: dec_int_def digit_char_def dec_nat.simps)

theorem setBond_index_error_witness:
  "setBond 1 [3, 7] [3 / 2, 120] harmonic_fresh =
     (Inl (OpenMMException ''BrookBondParameters::setBondBondIndex=1 is >= 1.''), harmonic_fresh, [])
   \<and> setBond (- 1) [3, 7] [3 / 2, 120] harmonic_fresh =
     (Inl (OpenMMException ''BrookBondParameters::setBondBondIndex=-1 is < 0.''), harmonic_fresh, [])"
  using setBond_index_error [of 1 harmonic_fresh "[3, 7]" "[3 / 2, 120]"]
    setBond_index_error [of "- 1" harmonic_fresh "[3, 7]" "[3 / 2, 120]"]
  by (simp add: getNumberOfBonds_def harmonic_fresh_def dec_int_1 dec_int_m1 methodName_setBond_def)

text \<open>
  Claim C3. Two calls of \<^verbatim>\<open>setBond\<close> on the same valid index append: both return the
  success value, and afterwards the row of particle indices is the row before the calls,
  then the first call's indices, then the second call's; likewise the row of parameters.
  Each row is longer by twice the count per bond, so a row that was empty has length
  \<open>2 * particlesPerBond\<close> (\<open>2 * parametersPerBond\<close>).
\<close>

theorem setBond_twice:
  assumes "store_inv s" and "0 \<le> bondIndex" and "bondIndex < getNumberOfBonds s"
    and "length p1 = nat (getNumberOfParticlesInBond s)"
    and "length p2 = nat (getNumberOfParticlesInBond s)"
    and "length b1 = nat (getNumberOfParametersInBond s)"
    and "length b2 = nat (getNumberOfParametersInBond s)"
  shows "\<exists>s1 s2. setBond bondIndex p1 b1 s = (Inr DefaultReturnValue, s1, [])
           \<and> setBond bondIndex p2 b2 s1 = (Inr DefaultReturnValue, s2, [])
           \<and> getParticleIndices s2 ! nat bondIndex = getParticleIndices s ! nat bondIndex @ p1 @ p2
           \<and> getBondParameters s2 ! nat bondIndex = getBondParameters s ! nat bondIndex @ b1 @ b2
           \<and> length (getParticleIndices s2 ! nat bondIndex)
               = length (getParticleIndices s ! nat bondIndex) + 2 * nat (getNumberOfParticlesInBond s)
           \<and> length (getBondParameters s2 ! nat bondIndex)
               = length (getBondParameters s ! nat bondIndex) + 2 * nat (getNumberOfParametersInBond s)"
proof -
  let ?k = "nat bondIndex"
  let ?s1 = "s\<lparr> particleIndices := (particleIndices s)
            [?k := particleIndices s ! ?k @ take (nat (getNumberOfParticlesInBond s)) p1],
          bondParameters := (bondParameters s)
            [?k := bondParameters s ! ?k @ take (nat (getNumberOfParametersInBond s)) b1] \<rparr>"
  have k: "?k < length (particleIndices s)" "?k < length (bondParameters s)"
    using assms(1-3) by (auto simp: store_inv_def getNumberOfBonds_def)
  have c1: "setBond bondIndex p1 b1 s = (Inr DefaultReturnValue, ?s1, [])"
    using setBond_valid [OF assms(2,3) k, of p1 b1] assms(4,6) by simp
  have g: "getNumberOfBonds ?s1 = getNumberOfBonds s"
    "getNumberOfParticlesInBond ?s1 = getNumberOfParticlesInBond s"
    "getNumberOfParametersInBond ?s1 = getNumberOfParametersInBond s"
    by (simp_all add: getNumberOfBonds_def getNumberOfParticlesInBond_def
        getNumberOfParametersInBond_def)
  have k1: "?k < length (particleIndices ?s1)" "?k < length (bondParameters ?s1)"
    using k by simp_all
  have v1: "bondIndex < getNumberOfBonds ?s1" using assms(3) g by simp
  let ?s2 = "?s1\<lparr> particleIndices := (particleIndices ?s1)
            [?k := particleIndices ?s1 ! ?k @ take (nat (getNumberOfParticlesInBond ?s1)) p2],
          bondParameters := (bondParameters ?s1)
            [?k := bondParameters ?s1 ! ?k @ take (nat (getNumberOfParametersInBond ?s1)) b2] \<rparr>"
  have c2: "setBond bondIndex p2 b2 ?s1 = (Inr DefaultReturnValue, ?s2, [])"
    using setBond_valid [OF assms(2) v1 k1, of p2 b2] assms(5,7) g by simp
  have r1: "getParticleIndices ?s2 ! ?k = getParticleIndices s ! ?k @ p1 @ p2"
    using k assms(4,5) g by (simp add: getParticleIndices_def)
  have r2: "getBondParameters ?s2 ! ?k = getBondParameters s ! ?k @ b1 @ b2"
    using k assms(6,7) g by (simp add: getBondParameters_def)
  have n1: "length (getParticleIndices ?s2 ! ?k)
      = length (getParticleIndices s ! ?k) + 2 * nat (getNumberOfParticlesInBond s)"
    unfolding r1 using assms(4,5) by simp
  have n2: "length (getBondParameters ?s2 ! ?k)
      = length (getBondParameters s ! ?k) + 2 * nat (getNumberOfParametersInBond s)"
    unfolding r2 using assms(6,7) by simp
  from c1 c2 r1 r2 n1 n2 show ?thesis by blast
qed

theorem setBond_twice_witness:
  "store_inv harmonic_fresh \<and> (0::int) \<le> 0 \<and> 0 < getNumberOfBonds harmonic_fresh
   \<and> length [3, 7 :: int] = nat (getNumberOfParticlesInBond harmonic_fresh)
   \<and> length [4, 8 :: int] = nat (getNumberOfParticlesInBond harmonic_fresh)
   \<and> length [3 / 2, 120 :: real] = nat (getNumberOfParametersInBond harmonic_fresh)
   \<and> length [5 / 2, 90 :: real] = nat (getNumberOfParametersInBond harmonic_fresh)
   \<and> (\<exists>s1 s2. setBond 0 [3, 7] [3 / 2, 120] harmonic_fresh = (Inr DefaultReturnValue, s1, [])
           \<and> setBond 0 [4, 8] [5 / 2, 90] s1 = (Inr DefaultReturnValue, s2, [])
           \<and> getParticleIndices s2 ! nat 0 = [3, 7, 4, 8]
           \<and> getBondParameters s2 ! nat 0 = [3 / 2, 120, 5 / 2, 90]
           \<and> length (getParticleIndices s2 ! nat 0) = 2 * 2
           \<and> length (getBondParameters s2 ! nat 0) = 2 * 2)"
  using setBond_twice [of harmonic_fresh 0 "[3, 7]" "[4, 8]" "[3 / 2, 120]" "[5 / 2, 90]"]
  by (simp add: harmonic_fresh_def store_inv_def getNumberOfBonds_def
      getNumberOfParticlesInBond_def getNumberOfParametersInBond_def
      getParticleIndices_def getBondParameters_def)

section \<open>Properties of construction, the invariant and the frame of setBond\<close>

text \<open>
  Claim C4. For every bond count \<open>bondCount \<ge> 0\<close> (an \<^verbatim>\<open>int\<close>) the constructor returns a
  store with \<^verbatim>\<open>getNumberOfBonds() == bondCount\<close>, whose two vectors hold exactly
  \<open>bondCount\<close> rows each, and every row is empty.
\<close>

theorem construct_empty_rows:
  assumes "0 \<le> bondCount" and "c_int_range bondCount"
  shows "\<exists>s :: 'd BrookBondParameters.
           BrookBondParameters_ctor name nParticles nParameters bondCount lg = Inr s
           \<and> getNumberOfBonds s = bondCount
           \<and> int (length (getParticleIndices s)) = bondCount
           \<and> int (length (getBondParameters s)) = bondCount
           \<and> (\<forall>row \<in> set (getParticleIndices s). row = [])
           \<and> (\<forall>row \<in> set (getBondParameters s). row = [])"
proof -
  have "BrookBondParameters_ctor name nParticles nParameters bondCount lg =
     Inr (\<lparr> bondName = name, numberOfParticlesInBond = nParticles,
           numberOfParametersInBond = nParameters, numberOfBonds = bondCount, log_ptr = lg,
           bondParameters = replicate (nat bondCount) [],
           particleIndices = replicate (nat bondCount) [] \<rparr> :: 'd BrookBondParameters)"
    by (rule ctor_nonneg [OF assms])
  then show ?thesis using assms(1)
    by (simp add: getNumberOfBonds_def getParticleIndices_def getBondParameters_def)
qed

theorem construct_empty_rows_witness:
  "(0::int) \<le> 3 \<and> c_int_range 3
   \<and> BrookBondParameters_ctor ''HarmonicBond'' 2 2 3 None =
       Inr \<lparr> bondName = ''HarmonicBond'', numberOfParticlesInBond = 2,
             numberOfParametersInBond = 2, numberOfBonds = 3, log_ptr = None,
             bondParameters = [[], [], [] :: real list], particleIndices = [[], [], []] \<rparr>
   \<and> (\<exists>s :: real BrookBondParameters.
         BrookBondParameters_ctor ''HarmonicBond'' 2 2 3 None = Inr s
           \<and> getNumberOfBonds s = 3
           \<and> int (length (getParticleIndices s)) = 3
           \<and> int (length (getBondParameters s)) = 3
           \<and> (\<forall>row \<in> set (getParticleIndices s). row = [])
           \<and> (\<forall>row \<in> set (getBondParameters s). row = []))"
proof -
  have r: "c_int_range 3" by (simp add: c_int_range_def)
  have c: "BrookBondParameters_ctor ''HarmonicBond'' 2 2 3 None =
       Inr \<lparr> bondName = ''HarmonicBond'', numberOfParticlesInBond = 2,
             numberOfParametersInBond = 2, numberOfBonds = 3, log_ptr = None,
             bondParameters = [[], [], [] :: real list], particleIndices = [[], [], []] \<rparr>"
    using ctor_nonneg [OF _ r, of "''HarmonicBond''" 2 2 None, where ?'d = real]
    by (simp add: eval_nat_numeral)
  show ?thesis
    using construct_empty_rows [OF _ r, of "''HarmonicBond''" 2 2 None,
        where ?'d = real] r c
    by simp
qed

lemma store_after_lengths:
  "length (particleIndices (store_after opn s)) = length (particleIndices s)
   \<and> length (bondParameters (store_after opn s)) = length (bondParameters s)
   \<and> numberOfBonds (store_after opn s) = numberOfBonds s"
proof (cases opn)
  case (SetBond bondIndex pis bps)
  obtain r s' w where c: "setBond bondIndex pis bps s = (r, s', w)"
    by (cases "setBond bondIndex pis bps s") auto
  from setBond_frame [OF c] obtain row row' where
    "s' = s\<lparr> particleIndices := (particleIndices s)[nat bondIndex := row],
            bondParameters := (bondParameters s)[nat bondIndex := row'] \<rparr>" by auto
  with SetBond c show ?thesis by simp
qed (simp_all add: setLog_def)

text \<open>
  Claim C5. The invariant \<open>store_inv\<close> (the vector of particle rows and the vector of
  parameter rows both have \<open>bondCount\<close> elements) holds for every store the constructor
  returns, and every operation keeps it: \<^verbatim>\<open>setBond\<close> whether it returns or raises,
  \<^verbatim>\<open>setLog\<close>, the accessors and \<^verbatim>\<open>getContentsString\<close>. No operation changes the
  length of either vector or the bond count.
\<close>

theorem outer_lengths_invariant:
  "(c_int_range bondCount \<and>
      BrookBondParameters_ctor name nParticles nParameters bondCount lg
        = Inr (s0 :: 'd BrookBondParameters)
        \<longrightarrow> store_inv s0)
   \<and> (store_inv s \<longrightarrow> store_inv (store_after opn s))
   \<and> length (getParticleIndices (store_after opn s)) = length (getParticleIndices s)
   \<and> length (getBondParameters (store_after opn s)) = length (getBondParameters s)
   \<and> getNumberOfBonds (store_after opn s) = getNumberOfBonds s"
proof (intro conjI impI)
  assume a: "c_int_range bondCount \<and>
      BrookBondParameters_ctor name nParticles nParameters bondCount lg = Inr s0"
  show "store_inv s0"
  proof (cases "0 \<le> bondCount")
    case True
    with a have "BrookBondParameters_ctor name nParticles nParameters bondCount lg =
     Inr (\<lparr> bondName = name, numberOfParticlesInBond = nParticles,
           numberOfParametersInBond = nParameters, numberOfBonds = bondCount, log_ptr = lg,
           bondParameters = replicate (nat bondCount) [],
           particleIndices = replicate (nat bondCount) [] \<rparr> :: 'd BrookBondParameters)"
      by (intro ctor_nonneg) auto
    with a True show ?thesis by (auto simp: store_inv_def)
  next
    case False
    with a have "BrookBondParameters_ctor name nParticles nParameters bondCount lg =
       (Inl LengthError :: error + 'd BrookBondParameters)"
      by (intro ctor_neg) auto
    with a show ?thesis by auto
  qed
next
  assume "store_inv s"
  then show "store_inv (store_after opn s)"
    using store_after_lengths [of opn s] by (simp add: store_inv_def)
qed (simp_all add: store_after_lengths getParticleIndices_def getBondParameters_def
      getNumberOfBonds_def)

theorem outer_lengths_invariant_witness:
  "c_int_range 1
   \<and> BrookBondParameters_ctor ''HarmonicBond'' 2 2 1 None = Inr harmonic_fresh
   \<and> store_inv harmonic_fresh
   \<and> store_inv (store_after (SetBond 0 [3, 7] [3 / 2, 120]) harmonic_fresh)
   \<and> store_inv (store_after (SetBond 1 [3, 7] [3 / 2, 120]) harmonic_fresh)
   \<and> store_inv (store_after (SetLog (Some 2)) harmonic_fresh)
   \<and> store_inv (store_after (GetContentsString 0) harmonic_fresh)"
proof -
  have r: "c_int_range 1" by (simp add: c_int_range_def)
  have c: "BrookBondParameters_ctor ''HarmonicBond'' 2 2 1 None = Inr harmonic_fresh"
    using ctor_nonneg [OF _ r, of "''HarmonicBond''" 2 2 None, where ?'d = real]
    by (simp add: harmonic_fresh_def)
  have i: "store_inv harmonic_fresh"
    using outer_lengths_invariant
      [of 1 "''HarmonicBond''" 2 2 None harmonic_fresh harmonic_fresh GetLog] r c
    by simp
  note inv = outer_lengths_invariant [of 1 "''HarmonicBond''" 2 2 None harmonic_fresh harmonic_fresh]
  show ?thesis
    using r c i inv [of "SetBond 0 [3, 7] [3 / 2, 120]"] inv [of "SetBond 1 [3, 7] [3 / 2, 120]"]
      inv [of "SetLog (Some 2)"] inv [of "GetContentsString 0"]
    by simp
qed

text \<open>
  Claim C6 as stated fails for a negative bond count: \<^verbatim>\<open>resize\<close> takes the count as an
  unsigned size, \<open>-1\<close> becomes \<open>2 ^ 64 - 1\<close>, and the constructor ends with
  \<^verbatim>\<open>std::length_error\<close> instead of a store.
\<close>

theorem construct_negative_count:
  "c_int_range (- 1)
   \<and> BrookBondParameters_ctor ''HarmonicBond'' 2 2 (- 1) None
       = (Inl LengthError :: error + real BrookBondParameters)"
proof -
  have r: "c_int_range (- 1)" by (simp add: c_int_range_def)
  from ctor_neg [OF _ r, of "''HarmonicBond''" 2 2 None, where ?'d = real] r
  show ?thesis by simp
qed

text \<open>
  Claim C6, amended. The constructor checks none of its counts itself: for every
  \<open>particlesPerBond\<close> and \<open>parametersPerBond\<close>, negative and zero included, and every
  \<open>bondCount \<ge> 0\<close>, it returns a store whose accessors give back the name, the three
  counts and the log handle as passed in, with \<open>bondCount\<close> empty rows in each vector (none
  for \<open>bondCount = 0\<close>).
\<close>

theorem construct_verbatim:
  assumes "0 \<le> bondCount" and "c_int_range bondCount"
  shows "\<exists>s :: 'd BrookBondParameters.
           BrookBondParameters_ctor name nParticles nParameters bondCount lg = Inr s
           \<and> getBondName s = name
           \<and> getNumberOfParticlesInBond s = nParticles
           \<and> getNumberOfParametersInBond s = nParameters
           \<and> getNumberOfBonds s = bondCount
           \<and> getLog s = lg
           \<and> getParticleIndices s = replicate (nat bondCount) []
           \<and> getBondParameters s = replicate (nat bondCount) []"
proof -
  have "BrookBondParameters_ctor name nParticles nParameters bondCount lg =
     Inr (\<lparr> bondName = name, numberOfParticlesInBond = nParticles,
           numberOfParametersInBond = nParameters, numberOfBonds = bondCount, log_ptr = lg,
           bondParameters = replicate (nat bondCount) [],
           particleIndices = replicate (nat bondCount) [] \<rparr> :: 'd BrookBondParameters)"
    by (rule ctor_nonneg [OF assms])
  then show ?thesis
    by (simp add: getNumberOfBonds_def getParticleIndices_def getBondParameters_def
      getBondName_def getNumberOfParticlesInBond_def getNumberOfParametersInBond_def getLog_def)
qed

theorem construct_verbatim_witness:
  "(0::int) \<le> 0 \<and> c_int_range 0
   \<and> (\<exists>s :: real BrookBondParameters.
         BrookBondParameters_ctor ''HarmonicBond'' (- 5) 0 0 (Some 1) = Inr s
           \<and> getBondName s = ''HarmonicBond''
           \<and> getNumberOfParticlesInBond s = - 5
           \<and> getNumberOfParametersInBond s = 0
           \<and> getNumberOfBonds s = 0
           \<and> getLog s = Some 1
           \<and> getParticleIndices s = []
           \<and> getBondParameters s = [])"
proof -
  have r: "c_int_range 0" by (simp add: c_int_range_def)
  show ?thesis
    using construct_verbatim [OF _ r, of "''HarmonicBond''" "- 5" 0 "Some 1", where ?'d = real] r
    by simp
qed

text \<open>
  Claim C7. A call of \<^verbatim>\<open>setBond\<close> that returns (its index is then valid, and the value is
  the success value) changes nothing but the two rows at \<open>bondIndex\<close>: every other row of
  particle indices and of parameters, the number of rows, the bond name, the three counts
  and the log handle are as before, and the call writes nothing to the log.
\<close>

theorem setBond_frame_only_row:
  assumes "setBond bondIndex pis bps s = (Inr r, s', w)"
  shows "0 \<le> bondIndex \<and> bondIndex < getNumberOfBonds s \<and> r = DefaultReturnValue \<and> w = []
     \<and> (\<forall>j. j \<noteq> nat bondIndex \<longrightarrow>
           getParticleIndices s' ! j = getParticleIndices s ! j
           \<and> getBondParameters s' ! j = getBondParameters s ! j)
     \<and> length (getParticleIndices s') = length (getParticleIndices s)
     \<and> length (getBondParameters s') = length (getBondParameters s)
     \<and> getBondName s' = getBondName s
     \<and> getNumberOfBonds s' = getNumberOfBonds s
     \<and> getNumberOfParticlesInBond s' = getNumberOfParticlesInBond s
     \<and> getNumberOfParametersInBond s' = getNumberOfParametersInBond s
     \<and> getLog s' = getLog s"
proof -
  from setBond_frame [OF assms] obtain row row' where
    s': "s' = s\<lparr> particleIndices := (particleIndices s)[nat bondIndex := row],
            bondParameters := (bondParameters s)[nat bondIndex := row'] \<rparr>" and w: "w = []"
    by auto
  from setBond_returns [OF assms] w s' show ?thesis
    by (simp add: getNumberOfBonds_def getParticleIndices_def getBondParameters_def
      getBondName_def getNumberOfParticlesInBond_def getNumberOfParametersInBond_def getLog_def)
qed


theorem setBond_frame_only_row_witness:
  "setBond 1 [3, 7] [3 / 2, 120]
     \<lparr> bondName = ''HarmonicBond'', numberOfParticlesInBond = 2, numberOfParametersInBond = 2,
       numberOfBonds = 2, log_ptr = Some 5, bondParameters = [[1 / 2, 100 :: real], []],
       particleIndices = [[1, 2], []] \<rparr>
   = (Inr DefaultReturnValue,
      \<lparr> bondName = ''HarmonicBond'', numberOfParticlesInBond = 2, numberOfParametersInBond = 2,
        numberOfBonds = 2, log_ptr = Some 5, bondParameters = [[1 / 2, 100], [3 / 2, 120]],
        particleIndices = [[1, 2], [3, 7]] \<rparr>, [])
   \<and> getParticleIndices \<lparr> bondName = ''HarmonicBond'', numberOfParticlesInBond = 2,
           numberOfParametersInBond = 2, numberOfBonds = 2, log_ptr = Some 5,
           bondParameters = [[1 / 2, 100 :: real], [3 / 2, 120]],
           particleIndices = [[1, 2], [3, 7]] \<rparr> ! 0 = [1, 2]
   \<and> getBondParameters \<lparr> bondName = ''HarmonicBond'', numberOfParticlesInBond = 2,
           numberOfParametersInBond = 2, numberOfBonds = 2, log_ptr = Some 5,
           bondParameters = [[1 / 2, 100 :: real], [3 / 2, 120]],
           particleIndices = [[1, 2], [3, 7]] \<rparr> ! 0 = [1 / 2, 100]"
proof -
  let ?s = "\<lparr> bondName = ''HarmonicBond'', numberOfParticlesInBond = 2,
       numberOfParametersInBond = 2,
       numberOfBonds = 2, log_ptr = Some 5, bondParameters = [[1 / 2, 100 :: real], []],
       particleIndices = [[1, 2], []] \<rparr>"
  let ?s' = "\<lparr> bondName = ''HarmonicBond'', numberOfParticlesInBond = 2,
        numberOfParametersInBond = 2,
        numberOfBonds = 2, log_ptr = Some 5, bondParameters = [[1 / 2, 100 :: real], [3 / 2, 120]],
        particleIndices = [[1, 2], [3, 7]] \<rparr>"
  have c: "setBond 1 [3, 7] [3 / 2, 120] ?s = (Inr DefaultReturnValue, ?s', [])"
    using setBond_valid [of 1 ?s "[3, 7]" "[3 / 2, 120]"]
    by (simp add: getNumberOfBonds_def getNumberOfParticlesInBond_def
        getNumberOfParametersInBond_def)
  from setBond_frame_only_row [OF c] c show ?thesis
    by (simp add: getParticleIndices_def getBondParameters_def)
qed

section \<open>Facts about the dump\<close>

lemma c_str_id: "CHR 0x00 \<notin> set x \<Longrightarrow> c_str x = x"
  by (auto simp: c_str_def takeWhile_eq_all_conv)

lemma c_str_no_NUL: "CHR 0x00 \<notin> set (c_str x)"
  by (auto simp: c_str_def dest: set_takeWhileD)

lemma c_str_idem: "c_str (c_str x) = c_str x"
  by (rule c_str_id [OF c_str_no_NUL])

lemma digit_char_no_NUL: "digit_char d \<noteq> CHR 0x00"
proof -
  have "d mod 10 < length ''0123456789''" by simp
  then have "digit_char d \<in> set ''0123456789''"
    unfolding digit_char_def by (rule nth_mem)
  then show ?thesis by auto
qed

lemma dec_nat_no_NUL: "CHR 0x00 \<notin> set (dec_nat n)"
proof (induction n rule: dec_nat.induct)
  case (1 n)
  show ?case
  proof (cases "n < 10")
    case True
    then show ?thesis
      using digit_char_no_NUL [of n] by (subst dec_nat.simps) auto
  next
    case False
    with 1 show ?thesis
      using digit_char_no_NUL [of "n mod 10"] by (subst dec_nat.simps) auto
  qed
qed

lemma dec_int_no_NUL: "CHR 0x00 \<notin> set (dec_int i)"
  by (simp add: dec_int_def dec_nat_no_NUL)

lemma pad_left_no_NUL: "CHR 0x00 \<notin> set x \<Longrightarrow> CHR 0x00 \<notin> set (pad_left w x)"
  by (auto simp: pad_left_def)

lemma pad_right_no_NUL: "CHR 0x00 \<notin> set x \<Longrightarrow> CHR 0x00 \<notin> set (pad_right w x)"
  by (auto simp: pad_right_def)

lemma c_str_tab: "c_str tab_string = tab_string"
  by (simp add: c_str_def tab_string_def)

lemma getLine_eq:
  "getLine tab_string description val =
     (if length (rendered_line (c_str description) (c_str val)) < MAX_LINE_CHARS_getLine
      then Inr (rendered_line (c_str description) (c_str val) @ [newline])
      else Inl BufferOverflow)"
  by (simp add: getLine_def sprintf_into_def rendered_line_def c_str_tab)

lemma rendered_line_length:
  "length (rendered_line description val) = 5 + max 40 (length description) + length val"
  by (auto simp: rendered_line_def pad_right_def tab_string_def)

lemma scalar_line_eq:
  assumes "CHR 0x00 \<notin> set description" "CHR 0x00 \<notin> set txt"
    and "length (rendered_line description txt) < MAX_LINE_CHARS_getLine"
  shows "scalar_line description txt = Inr (rendered_line description txt @ [newline])"
proof -
  have "length txt < MAX_LINE_CHARS"
    using assms(3) by (simp add: rendered_line_length MAX_LINE_CHARS_def MAX_LINE_CHARS_getLine_def)
  then show ?thesis
    using assms by (simp add: scalar_line_def sprintf_into_def getLine_eq c_str_id)
qed

lemma particle_columns_ok:
  "0 \<le> jj \<Longrightarrow> 0 \<le> ii \<Longrightarrow> nat ii < length (particleIndices s) \<Longrightarrow>
   nat n \<le> length (particleIndices s ! nat ii) \<Longrightarrow>
   length description
     + length (concat (map (\<lambda>v. pad_left 6 (dec_int v) @ '' '')
         (drop (nat jj) (take (nat n) (particleIndices s ! nat ii))))) < MAX_LINE_CHARS \<Longrightarrow>
   particle_columns jj n ii s description =
     Inr (description @ concat (map (\<lambda>v. pad_left 6 (dec_int v) @ '' '')
            (drop (nat jj) (take (nat n) (particleIndices s ! nat ii)))))"
proof (induction jj n ii s description rule: particle_columns.induct)
  case (1 jj n ii s description)
  let ?row = "particleIndices s ! nat ii"
  show ?case
  proof (cases "jj < n")
    case False
    then have "drop (nat jj) (take (nat n) ?row) = []" by simp
    with False show ?thesis by (subst particle_columns.simps) simp
  next
    case True
    let ?v = "?row ! nat jj"
    let ?piece = "pad_left 6 (dec_int ?v) @ '' ''"
    have r1: "array_read (particleIndices s) ii = Inr ?row"
      using "1.prems" by (simp add: array_read_def)
    have r2: "array_read ?row jj = Inr ?v"
      using True "1.prems" by (simp add: array_read_def)
    have step: "drop (nat jj) (take (nat n) ?row) = ?v # drop (nat (jj + 1)) (take (nat n) ?row)"
      using drop_take_step [of jj n ?row] True "1.prems" by simp
    have len: "length description + length ?piece
        + length (concat (map (\<lambda>v. pad_left 6 (dec_int v) @ '' '')
            (drop (nat (jj + 1)) (take (nat n) ?row)))) < MAX_LINE_CHARS"
      using "1.prems"(5) unfolding step by simp
    have p1: "sprintf_into MAX_LINE_CHARS ?piece = Inr ?piece"
      using len by (simp add: sprintf_into_def)
    have p2: "strcat_into MAX_LINE_CHARS description ?piece = Inr (description @ ?piece)"
      using len by (simp add: strcat_into_def)
    have ih: "particle_columns (jj + 1) n ii s (description @ ?piece) =
       Inr ((description @ ?piece) @ concat (map (\<lambda>v. pad_left 6 (dec_int v) @ '' '')
            (drop (nat (jj + 1)) (take (nat n) ?row))))"
    proof (rule "1.IH" [OF True r1 r2 p1 p2])
      show "0 \<le> jj + 1" using "1.prems"(1) by arith
      show "0 \<le> ii" by (rule "1.prems"(2))
      show "nat ii < length (particleIndices s)" by (rule "1.prems"(3))
      show "nat n \<le> length ?row" by (rule "1.prems"(4))
      show "length (description @ ?piece)
          + length (concat (map (\<lambda>v. pad_left 6 (dec_int v) @ '' '')
              (drop (nat (jj + 1)) (take (nat n) ?row)))) < MAX_LINE_CHARS"
        using len by (simp only: length_append)
    qed
    show ?thesis
      apply (subst particle_columns.simps)
      apply (simp only: True if_True r1 r2 p1 p2 sum.case ih)
      apply (simp add: step)
      done
  qed
qed

lemma parameter_columns_ok:
  "0 \<le> jj \<Longrightarrow> 0 \<le> ii \<Longrightarrow> nat ii < length (bondParameters s) \<Longrightarrow>
   nat n \<le> length (bondParameters s ! nat ii) \<Longrightarrow>
   length description
     + length (concat (map (\<lambda>x. e_fmt x @ '' '')
         (drop (nat jj) (take (nat n) (bondParameters s ! nat ii))))) < MAX_LINE_CHARS \<Longrightarrow>
   parameter_columns e_fmt jj n ii s description =
     Inr (description @ concat (map (\<lambda>x. e_fmt x @ '' '')
            (drop (nat jj) (take (nat n) (bondParameters s ! nat ii)))))"
proof (induction e_fmt jj n ii s description rule: parameter_columns.induct)
  case (1 e_fmt jj n ii s description)
  let ?row = "bondParameters s ! nat ii"
  show ?case
  proof (cases "jj < n")
    case False
    then have "drop (nat jj) (take (nat n) ?row) = []" by simp
    with False show ?thesis by (subst parameter_columns.simps) simp
  next
    case True
    let ?v = "?row ! nat jj"
    let ?piece = "e_fmt ?v @ '' ''"
    have r1: "array_read (bondParameters s) ii = Inr ?row"
      using "1.prems" by (simp add: array_read_def)
    have r2: "array_read ?row jj = Inr ?v"
      using True "1.prems" by (simp add: array_read_def)
    have step: "drop (nat jj) (take (nat n) ?row) = ?v # drop (nat (jj + 1)) (take (nat n) ?row)"
      using drop_take_step [of jj n ?row] True "1.prems" by simp
    have len: "length description + length ?piece
        + length (concat (map (\<lambda>x. e_fmt x @ '' '')
            (drop (nat (jj + 1)) (take (nat n) ?row)))) < MAX_LINE_CHARS"
      using "1.prems"(5) unfolding step by simp
    have p1: "sprintf_into MAX_LINE_CHARS ?piece = Inr ?piece"
      using len by (simp add: sprintf_into_def)
    have p2: "strcat_into MAX_LINE_CHARS description ?piece = Inr (description @ ?piece)"
      using len by (simp add: strcat_into_def)
    have ih: "parameter_columns e_fmt (jj + 1) n ii s (description @ ?piece) =
       Inr ((description @ ?piece) @ concat (map (\<lambda>x. e_fmt x @ '' '')
            (drop (nat (jj + 1)) (take (nat n) ?row))))"
    proof (rule "1.IH" [OF True r1 r2 p1 p2])
      show "0 \<le> jj + 1" using "1.prems"(1) by arith
      show "0 \<le> ii" by (rule "1.prems"(2))
      show "nat ii < length (bondParameters s)" by (rule "1.prems"(3))
      show "nat n \<le> length ?row" by (rule "1.prems"(4))
      show "length (description @ ?piece)
          + length (concat (map (\<lambda>x. e_fmt x @ '' '')
              (drop (nat (jj + 1)) (take (nat n) ?row)))) < MAX_LINE_CHARS"
        using len by (simp only: length_append)
    qed
    show ?thesis
      apply (subst parameter_columns.simps)
      apply (simp only: True if_True r1 r2 p1 p2 sum.case ih)
      apply (simp add: step)
      done
  qed
qed

lemma rendered_bond_no_NUL:
  assumes "no_NUL e_fmt"
  shows "CHR 0x00 \<notin> set (rendered_bond e_fmt s i)"
proof -
  have a: "\<And>v. CHR 0x00 \<notin> set (pad_left 6 (dec_int v))"
    by (rule pad_left_no_NUL [OF dec_int_no_NUL])
  have b: "\<And>x. CHR 0x00 \<notin> set (e_fmt x)"
    using assms by (simp add: no_NUL_def)
  show ?thesis
    unfolding rendered_bond_def using a b by auto
qed

lemma bond_line_ok:
  assumes pi: "i < length (particleIndices s)" and bp: "i < length (bondParameters s)"
    and np: "nat (getNumberOfParticlesInBond s) \<le> length (particleIndices s ! i)"
    and nq: "nat (getNumberOfParametersInBond s) \<le> length (bondParameters s ! i)"
    and nn: "no_NUL e_fmt"
    and fit: "length (rendered_line [] (rendered_bond e_fmt s i)) < MAX_LINE_CHARS_getLine"
  shows "bond_line e_fmt (int i) s = Inr (rendered_line [] (rendered_bond e_fmt s i) @ [newline])"
proof -
  let ?d0 = "pad_left 6 (dec_int (int i)) @ '' [''"
  let ?pc = "concat (map (\<lambda>v. pad_left 6 (dec_int v) @ '' '')
                 (take (nat (getNumberOfParticlesInBond s)) (particleIndices s ! i)))"
  let ?qc = "concat (map (\<lambda>x. e_fmt x @ '' '')
                 (take (nat (getNumberOfParametersInBond s)) (bondParameters s ! i)))"
  have rb: "rendered_bond e_fmt s i = ?d0 @ ?pc @ ''] ['' @ ?qc @ '']''"
    by (simp add: rendered_bond_def)
  have len: "length ?d0 + length ?pc + 3 + length ?qc + 1 < MAX_LINE_CHARS"
    using fit unfolding rb
    by (simp add: rendered_line_length MAX_LINE_CHARS_def MAX_LINE_CHARS_getLine_def)
  have s0: "sprintf_into MAX_LINE_CHARS ?d0 = Inr ?d0"
    using len by (simp add: sprintf_into_def)
  have s1: "particle_columns 0 (getNumberOfParticlesInBond s) (int i) s ?d0 = Inr (?d0 @ ?pc)"
    using particle_columns_ok [of 0 "int i" s "getNumberOfParticlesInBond s" ?d0] pi np len
    by simp
  have s2: "strcat_into MAX_LINE_CHARS (?d0 @ ?pc) ''] ['' = Inr ((?d0 @ ?pc) @ ''] ['')"
    using len by (simp add: strcat_into_def)
  have s3: "parameter_columns e_fmt 0 (getNumberOfParametersInBond s) (int i) s
              ((?d0 @ ?pc) @ ''] ['') = Inr (((?d0 @ ?pc) @ ''] ['') @ ?qc)"
    using parameter_columns_ok
      [of 0 "int i" s "getNumberOfParametersInBond s" "(?d0 @ ?pc) @ ''] [''" e_fmt] bp nq len
    by simp
  have s4: "strcat_into MAX_LINE_CHARS (((?d0 @ ?pc) @ ''] ['') @ ?qc) '']''
              = Inr ((((?d0 @ ?pc) @ ''] ['') @ ?qc) @ '']'')"
    using len by (simp add: strcat_into_def)
  have eq: "(((?d0 @ ?pc) @ ''] ['') @ ?qc) @ '']'' = rendered_bond e_fmt s i"
    unfolding rb by simp
  have s5: "getLine tab_string [] (rendered_bond e_fmt s i)
      = Inr (rendered_line [] (rendered_bond e_fmt s i) @ [newline])"
  proof -
    have c1: "c_str (rendered_bond e_fmt s i) = rendered_bond e_fmt s i"
      by (rule c_str_id [OF rendered_bond_no_NUL [OF nn]])
    have c2: "c_str [] = []" by (simp add: c_str_def)
    show ?thesis using fit by (simp add: getLine_eq c1 c2)
  qed
  show ?thesis
    unfolding bond_line_def
    by (simp only: s0 s1 s2 s3 s4 sum.case eq s5)
qed

lemma terminated_Cons: "terminated (l # ls) = l @ [newline] @ terminated ls"
  by (simp add: terminated_def)

lemma terminated_append: "terminated (xs @ ys) = terminated xs @ terminated ys"
  by (simp add: terminated_def)

lemma bond_lines_ok:
  "0 \<le> ii \<Longrightarrow> rows_filled s \<Longrightarrow> no_NUL e_fmt \<Longrightarrow> lines_fit e_fmt s \<Longrightarrow>
   bond_lines e_fmt ii s message =
     Inr (message @ terminated (map (\<lambda>i. rendered_line [] (rendered_bond e_fmt s i))
            [nat ii..<nat (getNumberOfBonds s)]))"
proof (induction e_fmt ii s message rule: bond_lines.induct)
  case (1 e_fmt ii s message)
  show ?case
  proof (cases "ii < getNumberOfBonds s")
    case False
    then have "[nat ii..<nat (getNumberOfBonds s)] = []" by simp
    with False show ?thesis
      by (subst bond_lines.simps) (simp add: terminated_def)
  next
    case True
    let ?i = "nat ii"
    have i: "?i < nat (getNumberOfBonds s)" "int ?i = ii" using True "1.prems"(1) by simp_all
    from "1.prems"(2) i(1) have rows:
      "?i < length (particleIndices s)" "?i < length (bondParameters s)"
      "nat (getNumberOfParticlesInBond s) \<le> length (particleIndices s ! ?i)"
      "nat (getNumberOfParametersInBond s) \<le> length (bondParameters s ! ?i)"
      by (simp_all add: rows_filled_def)
    have "rendered_line [] (rendered_bond e_fmt s ?i) \<in> set (rendered_lines e_fmt s)"
      using i(1) by (simp add: rendered_lines_def)
    with "1.prems"(4) have fit:
      "length (rendered_line [] (rendered_bond e_fmt s ?i)) < MAX_LINE_CHARS_getLine"
      by (simp add: lines_fit_def)
    have bl: "bond_line e_fmt ii s = Inr (rendered_line [] (rendered_bond e_fmt s ?i) @ [newline])"
      using bond_line_ok [OF rows "1.prems"(3) fit] i(2) by simp
    have up: "[?i..<nat (getNumberOfBonds s)] = ?i # [nat (ii + 1)..<nat (getNumberOfBonds s)]"
      using i(1) "1.prems"(1) by (simp add: upt_conv_Cons nat_add_distrib)
    have ih: "bond_lines e_fmt (ii + 1) s
        (message @ rendered_line [] (rendered_bond e_fmt s ?i) @ [newline]) =
      Inr ((message @ rendered_line [] (rendered_bond e_fmt s ?i) @ [newline])
        @ terminated (map (\<lambda>i. rendered_line [] (rendered_bond e_fmt s i))
            [nat (ii + 1)..<nat (getNumberOfBonds s)]))"
      using "1.IH" [OF True bl] "1.prems" by simp
    show ?thesis
      apply (subst bond_lines.simps)
      apply (simp only: True if_True bl sum.case ih up)
      apply (simp add: terminated_Cons)
      done
  qed
qed

lemma literal_no_NUL:
  "CHR 0x00 \<notin> set ''Bond name:''" "CHR 0x00 \<notin> set ''Number of bonds:''"
  "CHR 0x00 \<notin> set ''Particles/bond:''" "CHR 0x00 \<notin> set ''Parameters/bond:''"
  by simp_all

lemma getContentsString_ok:
  assumes "rows_filled s" "no_NUL e_fmt" "lines_fit e_fmt s"
  shows "getContentsString e_fmt level s = Inr (terminated (rendered_lines e_fmt s))"
proof -
  have fit: "\<And>l. l \<in> set (rendered_scalars s) \<Longrightarrow> length l < MAX_LINE_CHARS_getLine"
    using assms(3) by (simp add: lines_fit_def rendered_lines_def)
  have l1: "scalar_line ''Bond name:'' (c_str (getBondName s))
      = Inr (rendered_line ''Bond name:'' (c_str (getBondName s)) @ [newline])"
    by (rule scalar_line_eq [OF literal_no_NUL(1) c_str_no_NUL])
       (rule fit, simp add: rendered_scalars_def)
  have l2: "scalar_line ''Number of bonds:'' (dec_int (getNumberOfBonds s))
      = Inr (rendered_line ''Number of bonds:'' (dec_int (getNumberOfBonds s)) @ [newline])"
    by (rule scalar_line_eq [OF literal_no_NUL(2) dec_int_no_NUL])
       (rule fit, simp add: rendered_scalars_def)
  have l3: "scalar_line ''Particles/bond:'' (dec_int (getNumberOfParticlesInBond s))
      = Inr (rendered_line ''Particles/bond:'' (dec_int (getNumberOfParticlesInBond s)) @ [newline])"
    by (rule scalar_line_eq [OF literal_no_NUL(3) dec_int_no_NUL])
       (rule fit, simp add: rendered_scalars_def)
  have l4: "scalar_line ''Parameters/bond:'' (dec_int (getNumberOfParametersInBond s))
      = Inr (rendered_line ''Parameters/bond:'' (dec_int (getNumberOfParametersInBond s)) @ [newline])"
    by (rule scalar_line_eq [OF literal_no_NUL(4) dec_int_no_NUL])
       (rule fit, simp add: rendered_scalars_def)
  have bl: "\<And>message. bond_lines e_fmt 0 s message =
     Inr (message @ terminated (map (\<lambda>i. rendered_line [] (rendered_bond e_fmt s i))
            [0..<nat (getNumberOfBonds s)]))"
    using bond_lines_ok [OF _ assms, of 0] by simp
  show ?thesis
    unfolding getContentsString_def
    apply (simp only: l1 l2 l3 l4 sum.case bl)
    apply (simp add: rendered_lines_def rendered_scalars_def terminated_def)
    done
qed

lemma sprintf_into_fault: "sprintf_into cap txt = Inl e \<Longrightarrow> e = BufferOverflow"
  by (auto simp: sprintf_into_def split: if_splits)

lemma strcat_into_fault: "strcat_into cap dst src = Inl e \<Longrightarrow> e = BufferOverflow"
  by (auto simp: strcat_into_def split: if_splits)

lemma getLine_fault: "getLine tab description val = Inl e \<Longrightarrow> e = BufferOverflow"
  by (auto simp: getLine_def split: sum.splits dest: sprintf_into_fault)

lemma scalar_line_fault: "scalar_line description txt = Inl e \<Longrightarrow> e = BufferOverflow"
  by (auto simp: scalar_line_def split: sum.splits dest: sprintf_into_fault getLine_fault)

lemma scalar_line_Inr:
  assumes "scalar_line description txt = Inr l"
  shows "l = rendered_line (c_str description) (c_str txt) @ [newline]"
proof -
  from assms have "getLine tab_string description txt = Inr l"
    by (auto simp: scalar_line_def sprintf_into_def split: sum.splits if_splits)
  then show ?thesis
    by (auto simp: getLine_eq split: if_splits)
qed

lemma particle_columns_Inr:
  "particle_columns jj n ii s description = Inr d' \<Longrightarrow> 0 \<le> jj \<Longrightarrow> jj < n \<Longrightarrow>
   0 \<le> ii \<and> nat ii < length (particleIndices s)
   \<and> nat n \<le> length (particleIndices s ! nat ii)"
proof (induction jj n ii s description rule: particle_columns.induct)
  case (1 jj n ii s description)
  from "1.prems"(1,3) obtain row v buffer description'' where
    r1: "array_read (particleIndices s) ii = Inr row" and
    r2: "array_read row jj = Inr v" and
    p1: "sprintf_into MAX_LINE_CHARS (pad_left 6 (dec_int v) @ '' '') = Inr buffer" and
    p2: "strcat_into MAX_LINE_CHARS description buffer = Inr description''" and
    rec: "particle_columns (jj + 1) n ii s description'' = Inr d'"
    by (subst (asm) particle_columns.simps) (auto split: sum.splits)
  from r1 have ii: "0 \<le> ii" "nat ii < length (particleIndices s)"
    and row: "row = particleIndices s ! nat ii"
    by (auto simp: array_read_def split: if_splits)
  from r2 have jj: "nat jj < length row"
    by (auto simp: array_read_def split: if_splits)
  show ?case
  proof (cases "jj + 1 < n")
    case True
    from "1.IH" [OF "1.prems"(3) r1 r2 p1 p2 rec _ True] "1.prems"(2) show ?thesis by simp
  next
    case False
    with "1.prems"(2,3) have "nat n = Suc (nat jj)" by simp
    with jj row ii show ?thesis by simp
  qed
qed

lemma parameter_columns_Inr:
  "parameter_columns e_fmt jj n ii s description = Inr d' \<Longrightarrow> 0 \<le> jj \<Longrightarrow> jj < n \<Longrightarrow>
   0 \<le> ii \<and> nat ii < length (bondParameters s)
   \<and> nat n \<le> length (bondParameters s ! nat ii)"
proof (induction e_fmt jj n ii s description rule: parameter_columns.induct)
  case (1 e_fmt jj n ii s description)
  from "1.prems"(1,3) obtain row v buffer description'' where
    r1: "array_read (bondParameters s) ii = Inr row" and
    r2: "array_read row jj = Inr v" and
    p1: "sprintf_into MAX_LINE_CHARS (e_fmt v @ '' '') = Inr buffer" and
    p2: "strcat_into MAX_LINE_CHARS description buffer = Inr description''" and
    rec: "parameter_columns e_fmt (jj + 1) n ii s description'' = Inr d'"
    by (subst (asm) parameter_columns.simps) (auto split: sum.splits)
  from r1 have ii: "0 \<le> ii" "nat ii < length (bondParameters s)"
    and row: "row = bondParameters s ! nat ii"
    by (auto simp: array_read_def split: if_splits)
  from r2 have jj: "nat jj < length row"
    by (auto simp: array_read_def split: if_splits)
  show ?case
  proof (cases "jj + 1 < n")
    case True
    from "1.IH" [OF "1.prems"(3) r1 r2 p1 p2 rec _ True] "1.prems"(2) show ?thesis by simp
  next
    case False
    with "1.prems"(2,3) have "nat n = Suc (nat jj)" by simp
    with jj row ii show ?thesis by simp
  qed
qed

lemma particle_columns_fault:
  "particle_columns jj n ii s description = Inl e \<Longrightarrow> e = OutOfBounds \<or> e = BufferOverflow"
proof (induction jj n ii s description rule: particle_columns.induct)
  case (1 jj n ii s description)
  from "1.prems" have lt: "jj < n"
    by (subst (asm) particle_columns.simps) (auto split: if_splits)
  show ?case
  proof (cases "array_read (particleIndices s) ii")
    case (Inl e1)
    with "1.prems" lt array_read_fault [OF Inl] show ?thesis
      by (subst (asm) particle_columns.simps) simp
  next
    case r1: (Inr row)
    show ?thesis
    proof (cases "array_read row jj")
      case (Inl e1)
      with "1.prems" lt r1 array_read_fault [OF Inl] show ?thesis
        by (subst (asm) particle_columns.simps) simp
    next
      case r2: (Inr v)
      show ?thesis
      proof (cases "sprintf_into MAX_LINE_CHARS (pad_left 6 (dec_int v) @ '' '')")
        case (Inl e1)
        with "1.prems" lt r1 r2 sprintf_into_fault [OF Inl] show ?thesis
          by (subst (asm) particle_columns.simps) simp
      next
        case p1: (Inr buffer)
        show ?thesis
        proof (cases "strcat_into MAX_LINE_CHARS description buffer")
          case (Inl e1)
          with "1.prems" lt r1 r2 p1 strcat_into_fault [OF Inl] show ?thesis
            by (subst (asm) particle_columns.simps) simp
        next
          case p2: (Inr description'')
          have "particle_columns (jj + 1) n ii s description'' = Inl e"
            using "1.prems" lt r1 r2 p1 p2 by (subst (asm) particle_columns.simps) simp
          from "1.IH" [OF lt r1 r2 p1 p2 this] show ?thesis .
        qed
      qed
    qed
  qed
qed

lemma parameter_columns_fault:
  "parameter_columns e_fmt jj n ii s description = Inl e \<Longrightarrow>
   e = OutOfBounds \<or> e = BufferOverflow"
proof (induction e_fmt jj n ii s description rule: parameter_columns.induct)
  case (1 e_fmt jj n ii s description)
  from "1.prems" have lt: "jj < n"
    by (subst (asm) parameter_columns.simps) (auto split: if_splits)
  show ?case
  proof (cases "array_read (bondParameters s) ii")
    case (Inl e1)
    with "1.prems" lt array_read_fault [OF Inl] show ?thesis
      by (subst (asm) parameter_columns.simps) simp
  next
    case r1: (Inr row)
    show ?thesis
    proof (cases "array_read row jj")
      case (Inl e1)
      with "1.prems" lt r1 array_read_fault [OF Inl] show ?thesis
        by (subst (asm) parameter_columns.simps) simp
    next
      case r2: (Inr v)
      show ?thesis
      proof (cases "sprintf_into MAX_LINE_CHARS (e_fmt v @ '' '')")
        case (Inl e1)
        with "1.prems" lt r1 r2 sprintf_into_fault [OF Inl] show ?thesis
          by (subst (asm) parameter_columns.simps) simp
      next
        case p1: (Inr buffer)
        show ?thesis
        proof (cases "strcat_into MAX_LINE_CHARS description buffer")
          case (Inl e1)
          with "1.prems" lt r1 r2 p1 strcat_into_fault [OF Inl] show ?thesis
            by (subst (asm) parameter_columns.simps) simp
        next
          case p2: (Inr description'')
          have "parameter_columns e_fmt (jj + 1) n ii s description'' = Inl e"
            using "1.prems" lt r1 r2 p1 p2 by (subst (asm) parameter_columns.simps) simp
          from "1.IH" [OF lt r1 r2 p1 p2 this] show ?thesis .
        qed
      qed
    qed
  qed
qed

lemma bond_line_fault:
  "bond_line e_fmt ii s = Inl e \<Longrightarrow> e = OutOfBounds \<or> e = BufferOverflow"
  unfolding bond_line_def
  by (auto split: sum.splits
      dest: sprintf_into_fault strcat_into_fault getLine_fault
        particle_columns_fault parameter_columns_fault)

lemma bond_line_Inr:
  assumes "bond_line e_fmt ii s = Inr l"
  shows "(0 < getNumberOfParticlesInBond s \<longrightarrow>
            0 \<le> ii \<and> nat ii < length (particleIndices s)
            \<and> nat (getNumberOfParticlesInBond s) \<le> length (particleIndices s ! nat ii))
       \<and> (0 < getNumberOfParametersInBond s \<longrightarrow>
            0 \<le> ii \<and> nat ii < length (bondParameters s)
            \<and> nat (getNumberOfParametersInBond s) \<le> length (bondParameters s ! nat ii))"
proof -
  from assms obtain d0 d1 d2 d3 where
    a: "particle_columns 0 (getNumberOfParticlesInBond s) ii s d0 = Inr d1" and
    b: "parameter_columns e_fmt 0 (getNumberOfParametersInBond s) ii s d2 = Inr d3"
    unfolding bond_line_def by (auto split: sum.splits)
  from particle_columns_Inr [OF a] parameter_columns_Inr [OF b] show ?thesis by simp
qed

lemma bond_lines_fault:
  "bond_lines e_fmt ii s message = Inl e \<Longrightarrow> e = OutOfBounds \<or> e = BufferOverflow"
proof (induction e_fmt ii s message rule: bond_lines.induct)
  case (1 e_fmt ii s message)
  from "1.prems" have lt: "ii < getNumberOfBonds s"
    by (subst (asm) bond_lines.simps) (auto split: if_splits)
  show ?case
  proof (cases "bond_line e_fmt ii s")
    case (Inl e1)
    with "1.prems" lt bond_line_fault [OF Inl] show ?thesis
      by (subst (asm) bond_lines.simps) simp
  next
    case (Inr line)
    have "bond_lines e_fmt (ii + 1) s (message @ line) = Inl e"
      using "1.prems" lt Inr by (subst (asm) bond_lines.simps) simp
    from "1.IH" [OF lt Inr this] show ?thesis .
  qed
qed

lemma bond_lines_Inr:
  "bond_lines e_fmt ii s message = Inr out \<Longrightarrow>
   (\<exists>rest. out = message @ rest)
   \<and> (\<forall>i. ii \<le> i \<and> i < getNumberOfBonds s \<longrightarrow> (\<exists>l. bond_line e_fmt i s = Inr l))"
proof (induction e_fmt ii s message rule: bond_lines.induct)
  case (1 e_fmt ii s message)
  show ?case
  proof (cases "ii < getNumberOfBonds s")
    case False
    with "1.prems" have "out = message"
      by (subst (asm) bond_lines.simps) simp
    with False show ?thesis by auto
  next
    case True
    from "1.prems" True obtain line where
      bl: "bond_line e_fmt ii s = Inr line" and
      rec: "bond_lines e_fmt (ii + 1) s (message @ line) = Inr out"
      by (subst (asm) bond_lines.simps) (auto split: sum.splits)
    from "1.IH" [OF True bl rec] obtain rest where
      out: "out = (message @ line) @ rest" and
      others: "\<forall>i. ii + 1 \<le> i \<and> i < getNumberOfBonds s \<longrightarrow> (\<exists>l. bond_line e_fmt i s = Inr l)"
      by auto
    have "\<exists>l. bond_line e_fmt i s = Inr l" if "ii \<le> i \<and> i < getNumberOfBonds s" for i
    proof (cases "i = ii")
      case True
      with bl show ?thesis by simp
    next
      case False
      with that have "ii + 1 \<le> i \<and> i < getNumberOfBonds s" by simp
      with others show ?thesis by blast
    qed
    with out show ?thesis by auto
  qed
qed

lemma getContentsString_fault:
  "getContentsString e_fmt level s = Inl e \<Longrightarrow> e = OutOfBounds \<or> e = BufferOverflow"
  unfolding getContentsString_def
  by (auto split: sum.splits dest: scalar_line_fault bond_lines_fault)

lemma getContentsString_Inr:
  assumes "getContentsString e_fmt level s = Inr out"
  shows "(\<exists>rest. out = terminated (rendered_scalars s @ [''Bonds:'']) @ rest)
     \<and> (\<forall>i. 0 \<le> i \<and> i < getNumberOfBonds s \<longrightarrow> (\<exists>l. bond_line e_fmt i s = Inr l))"
proof -
  from assms obtain l1 l2 l3 l4 where
    l1: "scalar_line ''Bond name:'' (c_str (getBondName s)) = Inr l1" and
    l2: "scalar_line ''Number of bonds:'' (dec_int (getNumberOfBonds s)) = Inr l2" and
    l3: "scalar_line ''Particles/bond:'' (dec_int (getNumberOfParticlesInBond s)) = Inr l3" and
    l4: "scalar_line ''Parameters/bond:'' (dec_int (getNumberOfParametersInBond s)) = Inr l4" and
    bl: "bond_lines e_fmt 0 s (l1 @ l2 @ l3 @ l4 @ ''Bonds:'' @ [newline]) = Inr out"
    unfolding getContentsString_def by (auto split: sum.splits)
  have e1: "l1 = rendered_line ''Bond name:'' (c_str (getBondName s)) @ [newline]"
    using scalar_line_Inr [OF l1] c_str_id [OF literal_no_NUL(1)] by (simp add: c_str_idem)
  have e2: "l2 = rendered_line ''Number of bonds:'' (dec_int (getNumberOfBonds s)) @ [newline]"
    using scalar_line_Inr [OF l2] c_str_id [OF literal_no_NUL(2)]
      c_str_id [OF dec_int_no_NUL, of "getNumberOfBonds s"] by simp
  have e3: "l3 = rendered_line ''Particles/bond:'' (dec_int (getNumberOfParticlesInBond s))
      @ [newline]"
    using scalar_line_Inr [OF l3] c_str_id [OF literal_no_NUL(3)]
      c_str_id [OF dec_int_no_NUL, of "getNumberOfParticlesInBond s"] by simp
  have e4: "l4 = rendered_line ''Parameters/bond:'' (dec_int (getNumberOfParametersInBond s))
      @ [newline]"
    using scalar_line_Inr [OF l4] c_str_id [OF literal_no_NUL(4)]
      c_str_id [OF dec_int_no_NUL, of "getNumberOfParametersInBond s"] by simp
  have hd: "l1 @ l2 @ l3 @ l4 @ ''Bonds:'' @ [newline]
      = terminated (rendered_scalars s @ [''Bonds:''])"
    unfolding e1 e2 e3 e4 by (simp add: terminated_def rendered_scalars_def)
  from bond_lines_Inr [OF bl] obtain rest where
    o: "out = (l1 @ l2 @ l3 @ l4 @ ''Bonds:'' @ [newline]) @ rest" and
    r: "\<forall>i. 0 \<le> i \<and> i < getNumberOfBonds s \<longrightarrow> (\<exists>l. bond_line e_fmt i s = Inr l)"
    by blast
  from o have "out = terminated (rendered_scalars s @ [''Bonds:'']) @ rest"
    unfolding hd .
  with r show ?thesis by blast
qed

section \<open>Properties of the dump\<close>

lemma scalars_ok:
  assumes fit: "\<forall>l \<in> set (rendered_scalars s). length l < MAX_LINE_CHARS_getLine"
  shows "scalar_line ''Bond name:'' (c_str (getBondName s))
      = Inr (rendered_line ''Bond name:'' (c_str (getBondName s)) @ [newline])"
    and "scalar_line ''Number of bonds:'' (dec_int (getNumberOfBonds s))
      = Inr (rendered_line ''Number of bonds:'' (dec_int (getNumberOfBonds s)) @ [newline])"
    and "scalar_line ''Particles/bond:'' (dec_int (getNumberOfParticlesInBond s))
      = Inr (rendered_line ''Particles/bond:'' (dec_int (getNumberOfParticlesInBond s))
              @ [newline])"
    and "scalar_line ''Parameters/bond:'' (dec_int (getNumberOfParametersInBond s))
      = Inr (rendered_line ''Parameters/bond:'' (dec_int (getNumberOfParametersInBond s))
              @ [newline])"
proof -
  have f: "\<And>l. l \<in> set (rendered_scalars s) \<Longrightarrow> length l < MAX_LINE_CHARS_getLine"
    using fit by blast
  show "scalar_line ''Bond name:'' (c_str (getBondName s))
      = Inr (rendered_line ''Bond name:'' (c_str (getBondName s)) @ [newline])"
    by (rule scalar_line_eq [OF literal_no_NUL(1) c_str_no_NUL])
       (rule f, simp add: rendered_scalars_def)
  show "scalar_line ''Number of bonds:'' (dec_int (getNumberOfBonds s))
      = Inr (rendered_line ''Number of bonds:'' (dec_int (getNumberOfBonds s)) @ [newline])"
    by (rule scalar_line_eq [OF literal_no_NUL(2) dec_int_no_NUL])
       (rule f, simp add: rendered_scalars_def)
  show "scalar_line ''Particles/bond:'' (dec_int (getNumberOfParticlesInBond s))
      = Inr (rendered_line ''Particles/bond:'' (dec_int (getNumberOfParticlesInBond s))
              @ [newline])"
    by (rule scalar_line_eq [OF literal_no_NUL(3) dec_int_no_NUL])
       (rule f, simp add: rendered_scalars_def)
  show "scalar_line ''Parameters/bond:'' (dec_int (getNumberOfParametersInBond s))
      = Inr (rendered_line ''Parameters/bond:'' (dec_int (getNumberOfParametersInBond s))
              @ [newline])"
    by (rule scalar_line_eq [OF literal_no_NUL(4) dec_int_no_NUL])
       (rule f, simp add: rendered_scalars_def)
qed

lemma dec_int_0: "dec_int 0 = ''0''"
  by (simp add: dec_int_def digit_char_def dec_nat.simps [of 0])

lemma empty_rows_fault:
  assumes n: "0 < getNumberOfBonds s" and np: "0 < getNumberOfParticlesInBond s"
    and rows: "particleIndices s = replicate (nat (getNumberOfBonds s)) []"
    and fit: "\<forall>l \<in> set (rendered_scalars s). length l < MAX_LINE_CHARS_getLine"
  shows "getContentsString e_fmt level s = Inl OutOfBounds"
proof -
  have r1: "array_read (particleIndices s) 0 = Inr []"
    using n rows by (simp add: array_read_def)
  have r2: "array_read ([] :: int list) 0 = Inl OutOfBounds"
    by (simp add: array_read_def)
  have pc: "particle_columns 0 (getNumberOfParticlesInBond s) 0 s d = Inl OutOfBounds" for d
    by (subst particle_columns.simps) (simp add: np r1 r2)
  have s0: "sprintf_into MAX_LINE_CHARS (pad_left 6 (dec_int 0) @ '' ['')
      = Inr (pad_left 6 (dec_int 0) @ '' ['')"
    by (simp add: sprintf_into_def MAX_LINE_CHARS_def pad_left_def dec_int_0)
  have bl: "bond_line e_fmt 0 s = Inl OutOfBounds"
    unfolding bond_line_def by (simp only: s0 sum.case pc)
  have bls: "bond_lines e_fmt 0 s message = Inl OutOfBounds" for message
    by (subst bond_lines.simps) (simp add: n bl)
  show ?thesis
    unfolding getContentsString_def
    by (simp only: scalars_ok [OF fit] sum.case bls)
qed

text \<open>
  Claim C8 as stated fails: on the HarmonicBond store with no bond the dump is the text
  below, with a space between the tab string and the description and a space between the
  padded description and the value, while the format of the specification
  (\<open>spec_scalars\<close>) has neither.
\<close>

theorem scalar_line_format_counterexample:
  "getContentsString e_table 0 harmonic_none =
     Inr (terminated
       [''    Bond name:                               HarmonicBond'',
        ''    Number of bonds:                         0'',
        ''    Particles/bond:                          2'',
        ''    Parameters/bond:                         2'',
        ''Bonds:''])
   \<and> spec_scalars harmonic_none =
       [''   Bond name:                              HarmonicBond'',
        ''   Number of bonds:                        0'',
        ''   Particles/bond:                         2'',
        ''   Parameters/bond:                        2'']
   \<and> getContentsString e_table 0 harmonic_none
       \<noteq> Inr (terminated (spec_scalars harmonic_none @ [''Bonds:'']))"
  by code_simp

text \<open>
  Claim C8, amended. Whenever \<^verbatim>\<open>getContentsString\<close> returns, its text starts with the
  four lines of the scalar fields, in the order bond name, number of bonds, particles per
  bond, parameters per bond, each made of the tab string (three spaces), a space, the
  description padded on the right to 40 columns, a space and the value. It does return on
  every store whose rows are filled and whose lines fit the line buffer.
\<close>

theorem scalar_lines_format:
  "(rows_filled s \<and> no_NUL e_fmt \<and> lines_fit e_fmt s
      \<longrightarrow> (\<exists>out. getContentsString e_fmt level s = Inr out))
   \<and> (getContentsString e_fmt level s = Inr out \<longrightarrow>
        (\<exists>rest. out = terminated
           [tab_string @ '' '' @ pad_right 40 ''Bond name:'' @ '' '' @ c_str (getBondName s),
            tab_string @ '' '' @ pad_right 40 ''Number of bonds:'' @ '' ''
              @ dec_int (getNumberOfBonds s),
            tab_string @ '' '' @ pad_right 40 ''Particles/bond:'' @ '' ''
              @ dec_int (getNumberOfParticlesInBond s),
            tab_string @ '' '' @ pad_right 40 ''Parameters/bond:'' @ '' ''
              @ dec_int (getNumberOfParametersInBond s)] @ rest))"
proof (intro conjI impI)
  assume "rows_filled s \<and> no_NUL e_fmt \<and> lines_fit e_fmt s"
  then show "\<exists>out. getContentsString e_fmt level s = Inr out"
    using getContentsString_ok [of s e_fmt level] by simp
next
  assume "getContentsString e_fmt level s = Inr out"
  from getContentsString_Inr [OF this] obtain rest where
    "out = terminated (rendered_scalars s @ [''Bonds:'']) @ rest" by blast
  then have "out = terminated (rendered_scalars s) @ (terminated [''Bonds:''] @ rest)"
    by (simp add: terminated_append)
  then show "\<exists>rest. out = terminated
           [tab_string @ '' '' @ pad_right 40 ''Bond name:'' @ '' '' @ c_str (getBondName s),
            tab_string @ '' '' @ pad_right 40 ''Number of bonds:'' @ '' ''
              @ dec_int (getNumberOfBonds s),
            tab_string @ '' '' @ pad_right 40 ''Particles/bond:'' @ '' ''
              @ dec_int (getNumberOfParticlesInBond s),
            tab_string @ '' '' @ pad_right 40 ''Parameters/bond:'' @ '' ''
              @ dec_int (getNumberOfParametersInBond s)] @ rest"
    unfolding rendered_scalars_def rendered_line_def by blast
qed

lemma harmonic_set_renders:
  "rows_filled harmonic_set" "no_NUL e_table" "lines_fit e_table harmonic_set"
proof -
  show "rows_filled harmonic_set"
    by (simp add: rows_filled_def harmonic_set_def getNumberOfBonds_def
        getNumberOfParticlesInBond_def getNumberOfParametersInBond_def)
  show "no_NUL e_table"
    by (simp add: no_NUL_def e_table_def)
  have "rendered_lines e_table harmonic_set =
      [''    Bond name:                               HarmonicBond'',
       ''    Number of bonds:                         1'',
       ''    Particles/bond:                          2'',
       ''    Parameters/bond:                         2'',
       ''Bonds:'',
       ''                                                  0 [     3      7 ] [  1.5000000000e+00   1.2000000000e+02 ]'']"
    by code_simp
  then show "lines_fit e_table harmonic_set"
    by (simp add: lines_fit_def MAX_LINE_CHARS_getLine_def)
qed

theorem scalar_lines_format_witness:
  "rows_filled harmonic_set \<and> no_NUL e_table \<and> lines_fit e_table harmonic_set
   \<and> getContentsString e_table 0 harmonic_set =
       Inr (terminated
         [''    Bond name:                               HarmonicBond'',
          ''    Number of bonds:                         1'',
          ''    Particles/bond:                          2'',
          ''    Parameters/bond:                         2'']
        @ terminated
         [''Bonds:'',
          ''                                                  0 [     3      7 ] [  1.5000000000e+00   1.2000000000e+02 ]''])"
proof -
  have v: "getContentsString e_table 0 harmonic_set =
       Inr (terminated
         [''    Bond name:                               HarmonicBond'',
          ''    Number of bonds:                         1'',
          ''    Particles/bond:                          2'',
          ''    Parameters/bond:                         2'']
        @ terminated
         [''Bonds:'',
          ''                                                  0 [     3      7 ] [  1.5000000000e+00   1.2000000000e+02 ]''])"
    by code_simp
  from scalar_lines_format [of harmonic_set e_table 0] harmonic_set_renders v
  show ?thesis by simp
qed

text \<open>
  Claim C9 as stated fails. On the store as constructed the dump reads a row that is
  still empty and produces no line; with a bond name of 300 characters the first line
  does not fit the 256 characters of the line buffer; and on the store after
  \<^verbatim>\<open>setBond( 0, {3, 7}, {1.5, 120.0} )\<close> the line of bond \<open>0\<close> holds, after the tab
  string, a space, the empty description padded to 40 columns and a space before the
  index, which the format of the specification (\<open>spec_bond_line\<close>) does not have.
\<close>

theorem bond_line_format_counterexample:
  "getContentsString e_table 0 harmonic_fresh = Inl OutOfBounds
   \<and> getContentsString e_table 0 (harmonic_none \<lparr> bondName := replicate 300 CHR ''x'' \<rparr>)
       = Inl BufferOverflow
   \<and> getContentsString e_table 0 harmonic_set =
       Inr (terminated
         [''    Bond name:                               HarmonicBond'',
          ''    Number of bonds:                         1'',
          ''    Particles/bond:                          2'',
          ''    Parameters/bond:                         2'',
          ''Bonds:'',
          ''                                                  0 [     3      7 ] [  1.5000000000e+00   1.2000000000e+02 ]''])
   \<and> spec_bond_line e_table harmonic_set 0
       = ''        0 [     3      7 ] [  1.5000000000e+00   1.2000000000e+02 ]''
   \<and> getContentsString e_table 0 harmonic_set \<noteq>
       Inr (terminated
         [''    Bond name:                               HarmonicBond'',
          ''    Number of bonds:                         1'',
          ''    Particles/bond:                          2'',
          ''    Parameters/bond:                         2'',
          ''Bonds:'',
          spec_bond_line e_table harmonic_set 0])"
  by code_simp

text \<open>
  Claim C9, amended. On a store where every bond has its two rows filled up to the counts
  per bond, and every line fits the line buffer, \<^verbatim>\<open>getContentsString\<close> returns exactly
  \<open>4 + 1 + bondCount\<close> lines, each ended by a newline: the four lines of the scalar fields,
  the line \<^verbatim>\<open>Bonds:\<close>, and for each bond index \<open>0, ..., bondCount - 1\<close> in order the tab
  string, a space, 40 spaces, a space, the index right-aligned in 6 columns, \<^verbatim>\<open> [\<close>, the
  first \<open>particlesPerBond\<close> particle indices each right-aligned in 6 columns and followed
  by a space, \<^verbatim>\<open>] [\<close>, the first \<open>parametersPerBond\<close> parameters each in the \<^verbatim>\<open>%18.10e\<close>
  conversion (the parameter \<open>e_fmt\<close>) and followed by a space, and \<^verbatim>\<open>]\<close>.
\<close>

theorem dump_lines:
  assumes "rows_filled s" and "no_NUL e_fmt" and "lines_fit e_fmt s"
  shows "getContentsString e_fmt level s = Inr (terminated (rendered_lines e_fmt s))
    \<and> length (rendered_lines e_fmt s) = 4 + 1 + nat (getNumberOfBonds s)
    \<and> take 4 (rendered_lines e_fmt s) = rendered_scalars s
    \<and> rendered_lines e_fmt s ! 4 = ''Bonds:''
    \<and> (\<forall>i < nat (getNumberOfBonds s).
          rendered_lines e_fmt s ! (5 + i) =
            tab_string @ '' '' @ replicate 40 CHR '' '' @ '' ''
            @ pad_left 6 (dec_int (int i)) @ '' [''
            @ concat (map (\<lambda>v. pad_left 6 (dec_int v) @ '' '')
                (take (nat (getNumberOfParticlesInBond s)) (getParticleIndices s ! i)))
            @ ''] [''
            @ concat (map (\<lambda>x. e_fmt x @ '' '')
                (take (nat (getNumberOfParametersInBond s)) (getBondParameters s ! i)))
            @ '']'')"
proof -
  have len4: "length (rendered_scalars s) = 4" by (simp add: rendered_scalars_def)
  have a: "getContentsString e_fmt level s = Inr (terminated (rendered_lines e_fmt s))"
    by (rule getContentsString_ok [OF assms])
  have b: "length (rendered_lines e_fmt s) = 4 + 1 + nat (getNumberOfBonds s)"
    by (simp add: rendered_lines_def len4)
  have c: "take 4 (rendered_lines e_fmt s) = rendered_scalars s"
    by (simp add: rendered_lines_def len4)
  have d: "rendered_lines e_fmt s ! 4 = ''Bonds:''"
    using nth_append_length [of "rendered_scalars s" "''Bonds:''"]
    by (simp add: rendered_lines_def len4)
  have e: "rendered_lines e_fmt s ! (5 + i) =
            tab_string @ '' '' @ replicate 40 CHR '' '' @ '' ''
            @ pad_left 6 (dec_int (int i)) @ '' [''
            @ concat (map (\<lambda>v. pad_left 6 (dec_int v) @ '' '')
                (take (nat (getNumberOfParticlesInBond s)) (getParticleIndices s ! i)))
            @ ''] [''
            @ concat (map (\<lambda>x. e_fmt x @ '' '')
                (take (nat (getNumberOfParametersInBond s)) (getBondParameters s ! i)))
            @ '']''" if "i < nat (getNumberOfBonds s)" for i
  proof -
    have "rendered_lines e_fmt s ! (length (rendered_scalars s @ [''Bonds:'']) + i)
        = map (\<lambda>i. rendered_line [] (rendered_bond e_fmt s i)) [0..<nat (getNumberOfBonds s)] ! i"
      unfolding rendered_lines_def append_assoc [symmetric] by (rule nth_append_length_plus)
    then have "rendered_lines e_fmt s ! (5 + i) = rendered_line [] (rendered_bond e_fmt s i)"
      using that by (simp add: len4)
    then show ?thesis
      by (simp add: rendered_line_def rendered_bond_def pad_right_def
          getParticleIndices_def getBondParameters_def)
  qed
  from a b c d e show ?thesis by blast
qed

theorem dump_lines_witness:
  "rows_filled harmonic_set \<and> no_NUL e_table \<and> lines_fit e_table harmonic_set
   \<and> getContentsString e_table 0 harmonic_set =
       Inr (terminated
         [''    Bond name:                               HarmonicBond'',
          ''    Number of bonds:                         1'',
          ''    Particles/bond:                          2'',
          ''    Parameters/bond:                         2'',
          ''Bonds:'',
          ''                                                  0 [     3      7 ] [  1.5000000000e+00   1.2000000000e+02 ]''])
   \<and> length (rendered_lines e_table harmonic_set) = 4 + 1 + 1"
proof -
  have v: "rendered_lines e_table harmonic_set =
      [''    Bond name:                               HarmonicBond'',
       ''    Number of bonds:                         1'',
       ''    Particles/bond:                          2'',
       ''    Parameters/bond:                         2'',
       ''Bonds:'',
       ''                                                  0 [     3      7 ] [  1.5000000000e+00   1.2000000000e+02 ]'']"
    by code_simp
  from dump_lines [OF harmonic_set_renders, of 0]
  have "getContentsString e_table 0 harmonic_set
      = Inr (terminated (rendered_lines e_table harmonic_set))"
    by (rule conjunct1)
  with harmonic_set_renders show ?thesis unfolding v by simp
qed

text \<open>
  Claim C10. \<^verbatim>\<open>getContentsString\<close> reads the elements \<open>0, ..., particlesPerBond - 1\<close> of
  the row of particle indices and \<open>0, ..., parametersPerBond - 1\<close> of the row of parameters
  of every bond, whatever the rows hold. So if it returns, every bond's rows are at least
  that long; on a store where some bond's row is shorter it never returns: it ends in the
  out-of-bounds read (or in an overflow of a character array before it gets there); and
  on a store whose rows are all empty, with at least one bond, a positive
  \<open>particlesPerBond\<close> and scalar lines that fit the line buffer, it ends in the
  out-of-bounds read.
\<close>

theorem dump_reads_every_row:
  "(getContentsString e_fmt level s = Inr out \<longrightarrow>
      (\<forall>i. 0 \<le> i \<and> i < getNumberOfBonds s \<longrightarrow>
         (0 < getNumberOfParticlesInBond s \<longrightarrow>
            nat i < length (getParticleIndices s)
            \<and> nat (getNumberOfParticlesInBond s) \<le> length (getParticleIndices s ! nat i))
       \<and> (0 < getNumberOfParametersInBond s \<longrightarrow>
            nat i < length (getBondParameters s)
            \<and> nat (getNumberOfParametersInBond s) \<le> length (getBondParameters s ! nat i))))
   \<and> ((\<exists>i. 0 \<le> i \<and> i < getNumberOfBonds s
          \<and> (length (getParticleIndices s ! nat i) < nat (getNumberOfParticlesInBond s)
             \<or> length (getBondParameters s ! nat i) < nat (getNumberOfParametersInBond s)))
        \<longrightarrow> getContentsString e_fmt level s = Inl OutOfBounds
            \<or> getContentsString e_fmt level s = Inl BufferOverflow)
   \<and> (0 < getNumberOfBonds s \<and> 0 < getNumberOfParticlesInBond s
        \<and> getParticleIndices s = replicate (nat (getNumberOfBonds s)) []
        \<and> (\<forall>l \<in> set (rendered_scalars s). length l < MAX_LINE_CHARS_getLine)
        \<longrightarrow> getContentsString e_fmt level s = Inl OutOfBounds)"
proof -
  have rows: "(0 < getNumberOfParticlesInBond s \<longrightarrow>
            nat i < length (getParticleIndices s)
            \<and> nat (getNumberOfParticlesInBond s) \<le> length (getParticleIndices s ! nat i))
       \<and> (0 < getNumberOfParametersInBond s \<longrightarrow>
            nat i < length (getBondParameters s)
            \<and> nat (getNumberOfParametersInBond s) \<le> length (getBondParameters s ! nat i))"
    if ok: "getContentsString e_fmt level s = Inr out'" and i: "0 \<le> i \<and> i < getNumberOfBonds s"
    for out' i
  proof -
    from getContentsString_Inr [OF ok] i obtain l where "bond_line e_fmt i s = Inr l" by blast
    from bond_line_Inr [OF this] show ?thesis
      by (simp add: getParticleIndices_def getBondParameters_def)
  qed
  have a: "getContentsString e_fmt level s = Inr out \<longrightarrow>
      (\<forall>i. 0 \<le> i \<and> i < getNumberOfBonds s \<longrightarrow>
         (0 < getNumberOfParticlesInBond s \<longrightarrow>
            nat i < length (getParticleIndices s)
            \<and> nat (getNumberOfParticlesInBond s) \<le> length (getParticleIndices s ! nat i))
       \<and> (0 < getNumberOfParametersInBond s \<longrightarrow>
            nat i < length (getBondParameters s)
            \<and> nat (getNumberOfParametersInBond s) \<le> length (getBondParameters s ! nat i)))"
    using rows by blast
  have b: "getContentsString e_fmt level s = Inl OutOfBounds
            \<or> getContentsString e_fmt level s = Inl BufferOverflow"
    if short: "\<exists>i. 0 \<le> i \<and> i < getNumberOfBonds s
          \<and> (length (getParticleIndices s ! nat i) < nat (getNumberOfParticlesInBond s)
             \<or> length (getBondParameters s ! nat i) < nat (getNumberOfParametersInBond s))"
  proof (cases "getContentsString e_fmt level s")
    case (Inl e)
    with getContentsString_fault [OF Inl] show ?thesis by auto
  next
    case (Inr out')
    from short obtain i where i: "0 \<le> i \<and> i < getNumberOfBonds s"
      and sh: "length (getParticleIndices s ! nat i) < nat (getNumberOfParticlesInBond s)
             \<or> length (getBondParameters s ! nat i) < nat (getNumberOfParametersInBond s)"
      by blast
    from rows [OF Inr i] sh have False by auto
    then show ?thesis ..
  qed
  have c: "getContentsString e_fmt level s = Inl OutOfBounds"
    if "0 < getNumberOfBonds s \<and> 0 < getNumberOfParticlesInBond s
        \<and> getParticleIndices s = replicate (nat (getNumberOfBonds s)) []
        \<and> (\<forall>l \<in> set (rendered_scalars s). length l < MAX_LINE_CHARS_getLine)"
    using that empty_rows_fault [of s e_fmt level] by (simp add: getParticleIndices_def)
  from a b c show ?thesis by blast
qed

theorem dump_reads_every_row_witness:
  "0 < getNumberOfBonds harmonic_fresh \<and> 0 < getNumberOfParticlesInBond harmonic_fresh
   \<and> getParticleIndices harmonic_fresh = replicate (nat (getNumberOfBonds harmonic_fresh)) []
   \<and> length (getParticleIndices harmonic_fresh ! nat 0)
       < nat (getNumberOfParticlesInBond harmonic_fresh)
   \<and> getContentsString e_table 0 harmonic_fresh = Inl OutOfBounds
   \<and> getContentsString e_table 0 harmonic_set =
       Inr (terminated (rendered_lines e_table harmonic_set))
   \<and> nat (getNumberOfParticlesInBond harmonic_set) \<le> length (getParticleIndices harmonic_set ! nat 0)
   \<and> nat (getNumberOfParametersInBond harmonic_set) \<le> length (getBondParameters harmonic_set ! nat 0)"
proof -
  have f: "0 < getNumberOfBonds harmonic_fresh" "0 < getNumberOfParticlesInBond harmonic_fresh"
    "getParticleIndices harmonic_fresh = replicate (nat (getNumberOfBonds harmonic_fresh)) []"
    "length (getParticleIndices harmonic_fresh ! nat 0)
       < nat (getNumberOfParticlesInBond harmonic_fresh)"
    by (simp_all add: harmonic_fresh_def getNumberOfBonds_def getNumberOfParticlesInBond_def
        getParticleIndices_def)
  have sc: "rendered_scalars harmonic_fresh =
      [''    Bond name:                               HarmonicBond'',
       ''    Number of bonds:                         1'',
       ''    Particles/bond:                          2'',
       ''    Parameters/bond:                         2'']"
    by code_simp
  have fit: "\<forall>l \<in> set (rendered_scalars harmonic_fresh). length l < MAX_LINE_CHARS_getLine"
    unfolding sc by (simp add: MAX_LINE_CHARS_getLine_def)
  have g: "getContentsString e_table 0 harmonic_set =
       Inr (terminated (rendered_lines e_table harmonic_set))"
    by (rule getContentsString_ok [OF harmonic_set_renders])
  have n: "0 < getNumberOfBonds harmonic_set" "0 < getNumberOfParticlesInBond harmonic_set"
    "0 < getNumberOfParametersInBond harmonic_set"
    by (simp_all add: harmonic_set_def getNumberOfBonds_def getNumberOfParticlesInBond_def
        getNumberOfParametersInBond_def)
  from dump_reads_every_row [of e_table 0 harmonic_fresh]
    dump_reads_every_row [of e_table 0 harmonic_set "terminated (rendered_lines e_table harmonic_set)"]
    f fit g n
  show ?thesis by auto
qed

section \<open>Further properties\<close>

text \<open>
  The argument \<open>level\<close> of \<^verbatim>\<open>getContentsString\<close> is never read: the dump is the same for
  every level.
\<close>

theorem level_ignored:
  "getContentsString e_fmt level s = getContentsString e_fmt level' s"
  by (simp add: getContentsString_def)

text \<open>
  The scenario of the specification, end to end: the constructor gives the store with one
  empty row of each kind; \<^verbatim>\<open>setBond( 0, {3, 7}, {1.5, 120.0} )\<close> returns the success value
  and leaves the rows \<open>[[3, 7]]\<close> and \<open>[[1.5, 120]]\<close>; \<^verbatim>\<open>setBond\<close> on index \<open>1\<close> raises
  the exception that names the bound \<open>1\<close>; and the dump of the filled store is the six
  lines below, the last with the particle block \<^verbatim>\<open>[     3      7 ]\<close>.
\<close>

theorem harmonic_scenario:
  "BrookBondParameters_ctor ''HarmonicBond'' 2 2 1 None = Inr harmonic_fresh
   \<and> setBond 0 [3, 7] [3 / 2, 120] harmonic_fresh = (Inr DefaultReturnValue, harmonic_set, [])
   \<and> getParticleIndices harmonic_set = [[3, 7]]
   \<and> getBondParameters harmonic_set = [[3 / 2, 120]]
   \<and> setBond 1 [3, 7] [3 / 2, 120] harmonic_fresh =
       (Inl (OpenMMException ''BrookBondParameters::setBondBondIndex=1 is >= 1.''),
        harmonic_fresh, [])
   \<and> getContentsString e_table 0 harmonic_set =
       Inr (terminated
         [''    Bond name:                               HarmonicBond'',
          ''    Number of bonds:                         1'',
          ''    Particles/bond:                          2'',
          ''    Parameters/bond:                         2'',
          ''Bonds:'',
          ''                                                  0 [     3      7 ] [  1.5000000000e+00   1.2000000000e+02 ]''])"
proof -
  have r: "c_int_range 1" by (simp add: c_int_range_def)
  have a: "BrookBondParameters_ctor ''HarmonicBond'' 2 2 1 None = Inr harmonic_fresh"
    using ctor_nonneg [OF _ r, of "''HarmonicBond''" 2 2 None, where ?'d = real]
    by (simp add: harmonic_fresh_def)
  have b: "setBond 0 [3, 7] [3 / 2, 120] harmonic_fresh
      = (Inr DefaultReturnValue, harmonic_set, [])"
    using setBond_valid [of 0 harmonic_fresh "[3, 7]" "[3 / 2, 120]"]
    by (simp add: harmonic_fresh_def harmonic_set_def getNumberOfBonds_def
        getNumberOfParticlesInBond_def getNumberOfParametersInBond_def)
  have c: "getParticleIndices harmonic_set = [[3, 7]]"
    "getBondParameters harmonic_set = [[3 / 2, 120]]"
    by (simp_all add: harmonic_set_def getParticleIndices_def getBondParameters_def)
  have d: "setBond 1 [3, 7] [3 / 2, 120] harmonic_fresh =
       (Inl (OpenMMException ''BrookBondParameters::setBondBondIndex=1 is >= 1.''),
        harmonic_fresh, [])"
    using setBond_invalid [of 1 harmonic_fresh "[3, 7]" "[3 / 2, 120]"]
    by (simp add: getNumberOfBonds_def harmonic_fresh_def dec_int_1 methodName_setBond_def)
  have e: "getContentsString e_table 0 harmonic_set =
       Inr (terminated
         [''    Bond name:                               HarmonicBond'',
          ''    Number of bonds:                         1'',
          ''    Particles/bond:                          2'',
          ''    Parameters/bond:                         2'',
          ''Bonds:'',
          ''                                                  0 [     3      7 ] [  1.5000000000e+00   1.2000000000e+02 ]''])"
    by code_simp
  from a b c d e show ?thesis by blast
qed

end
